theory Spec2Isabelle
  imports Main "HOL-Library.Word"
begin

unbundle bit_operations_syntax

section \<open>Machine types and abnormal termination\<close>

text \<open>
  The guest boot code is built for a 32-bit x86 host: \<^verbatim>\<open>uintptr_t\<close>, \<^verbatim>\<open>size_t\<close>,
  \<^verbatim>\<open>seL4_Word\<close> and \<^verbatim>\<open>unsigned int\<close> are 32-bit words, \<^verbatim>\<open>int\<close> is a 32-bit
  two's-complement word (read with \<open>sint\<close>), and the e820 table uses 64-bit fields.
\<close>

type_synonym u8 = "8 word"
type_synonym u32 = "32 word"
type_synonym u64 = "64 word"

text \<open>
  \<^verbatim>\<open>panic(...)\<close>, a failing \<^verbatim>\<open>assert(...)\<close> and \<^verbatim>\<open>ZF_LOGF_IF(...)\<close> all stop the host
  process. They are the \<open>Inl\<close> branch of every result; an ordinary \<^verbatim>\<open>return -1\<close> is a
  normal result carrying the value \<open>-1\<close>.
\<close>

datatype abort = Panic string | AssertFailed string | LogFatal string

section \<open>Guest physical memory and host buffers\<close>

type_synonym guest_memory = "u32 \<Rightarrow> u8"

primrec write_bytes :: "guest_memory \<Rightarrow> u32 \<Rightarrow> u8 list \<Rightarrow> guest_memory" where
  "write_bytes m a [] = m"
| "write_bytes m a (b # bs) = write_bytes (m(a := b)) (a + 1) bs"

primrec read_bytes :: "guest_memory \<Rightarrow> u32 \<Rightarrow> nat \<Rightarrow> u8 list" where
  "read_bytes m a 0 = []"
| "read_bytes m a (Suc n) = m a # read_bytes m (a + 1) n"

text \<open>A 32-bit value as it lies in memory on x86 (little endian).\<close>

definition bytes_of_u32 :: "u32 \<Rightarrow> u8 list" where
  "bytes_of_u32 w = [ucast w, ucast (drop_bit 8 w), ucast (drop_bit 16 w), ucast (drop_bit 24 w)]"

fun u32_of_bytes :: "u8 list \<Rightarrow> u32" where
  "u32_of_bytes [] = 0"
| "u32_of_bytes (b # bs) = ucast b OR push_bit 8 (u32_of_bytes bs)"

text \<open>\<^verbatim>\<open>memcpy(cookie + offset, src, size)\<close> into a host buffer held as a byte list.\<close>

definition buf_store :: "u8 list \<Rightarrow> nat \<Rightarrow> u8 list \<Rightarrow> u8 list" where
  "buf_store buf offset bs = take offset buf @ bs @ drop (offset + length bs) buf"

text \<open>\<^verbatim>\<open>fseek(file, offset, SEEK_SET); fread(dst, size, 1, file)\<close>: the one item is read
  only when all of its bytes lie inside the file; otherwise \<^verbatim>\<open>fread\<close> returns 0.\<close>

definition fread_at :: "u8 list \<Rightarrow> nat \<Rightarrow> nat \<Rightarrow> u8 list option" where
  "fread_at file offset sz =
     (if 0 < sz \<and> offset + sz \<le> length file then Some (take sz (drop offset file)) else None)"

section \<open>The Guest Address-Space Writer\<close>

definition PAGE_SIZE_4K :: nat where
  "PAGE_SIZE_4K = 4096"

text \<open>
  Modelled from the spec: \<^verbatim>\<open>vmm_guest_vspace_touch\<close> is not part of the sources at hand.
  The specification gives \<open>touch(base_address, length, callback, context)\<close>: the callback
  is invoked as \<open>callback(phys_addr, host_vaddr, chunk_size, offset_within_request, context)\<close>
  once per backing page spanned by \<open>[base_address, base_address + length)\<close>; the callback
  returns success or failure and a failure aborts the touch. \<open>touch_chunks\<close> lists the
  \<open>(phys_addr, chunk_size, offset_within_request)\<close> triples of such a walk; the host
  virtual address handed to the callback is the window onto guest memory at \<open>phys_addr\<close>.
\<close>

function touch_chunks :: "nat \<Rightarrow> nat \<Rightarrow> nat \<Rightarrow> (nat \<times> nat \<times> nat) list" where
  "touch_chunks base cur end_addr =
     (if cur < end_addr then
        (let next_addr = min end_addr ((cur div PAGE_SIZE_4K + 1) * PAGE_SIZE_4K)
         in (cur, next_addr - cur, cur - base) # touch_chunks base next_addr end_addr)
      else [])"
  by pat_completeness auto
termination
proof (relation "measure (\<lambda>(base, cur, end_addr). end_addr - cur)", goal_cases)
  case 1
  show ?case by simp
next
  case (2 base cur end_addr next_addr)
  have "cur < (cur div 4096 + 1) * 4096"
    using div_mult_mod_eq [of cur 4096] by (simp add: algebra_simps)
  with 2 show ?case by (auto simp add: PAGE_SIZE_4K_def min_def)
qed

declare touch_chunks.simps [simp del]

type_synonym 's touch_callback = "u32 \<Rightarrow> nat \<Rightarrow> nat \<Rightarrow> 's \<Rightarrow> abort + (int \<times> 's)"

fun touch_run :: "'s touch_callback \<Rightarrow> (nat \<times> nat \<times> nat) list \<Rightarrow> 's \<Rightarrow> abort + (int \<times> 's)" where
  "touch_run cb [] s = Inr (0, s)"
| "touch_run cb ((phys, sz, off) # cs) s =
     (case cb (of_nat phys) sz off s of
        Inl a \<Rightarrow> Inl a
      | Inr (ret, s') \<Rightarrow> if ret \<noteq> 0 then Inr (ret, s') else touch_run cb cs s')"

definition vmm_guest_vspace_touch ::
  "'s touch_callback \<Rightarrow> u32 \<Rightarrow> u32 \<Rightarrow> 's \<Rightarrow> abort + (int \<times> 's)" where
  "vmm_guest_vspace_touch cb addr sz s =
     touch_run cb (touch_chunks (unat addr) (unat addr) (unat addr + unat sz)) s"

text \<open>
  The callbacks of the source. Their state is the guest memory together with the host
  object behind the \<^verbatim>\<open>cookie\<close> pointer (a byte buffer).
\<close>

definition guest_elf_write_address :: "(guest_memory \<times> u8 list) touch_callback" where
  "guest_elf_write_address paddr sz offset s =
     (case s of (m, cookie) \<Rightarrow> Inr (0, (write_bytes m paddr (take sz (drop offset cookie)), cookie)))"

definition guest_elf_read_address :: "(guest_memory \<times> u8 list) touch_callback" where
  "guest_elf_read_address paddr sz offset s =
     (case s of (m, cookie) \<Rightarrow> Inr (0, (m, buf_store cookie offset (read_bytes m paddr sz))))"

section \<open>The VM state\<close>

text \<open>
  Modelled from the spec: the declaration of \<^verbatim>\<open>guest_image_t\<close> is not part of the sources
  at hand. The specification's GuestImage holds \<open>load_paddr\<close>, \<open>link_paddr\<close>,
  \<open>link_vaddr\<close>, \<open>relocation_offset\<close> (signed), \<open>alignment\<close>, \<open>entry\<close>, \<open>cmd_line\<close>,
  \<open>cmd_line_len\<close>, \<open>boot_info\<close>, \<open>boot_module_paddr\<close> and \<open>boot_module_size\<close>; these are
  the fields the code reads and writes. \<open>relocation_offset\<close> is the C \<^verbatim>\<open>int\<close>, held as its
  32-bit two's-complement pattern. The fields \<^verbatim>\<open>alignment\<close> and \<^verbatim>\<open>entry\<close> carry the
  prefix \<open>image_\<close>, since the functions below have locals of the same names.
\<close>

record guest_image =
  image_alignment :: u32
  image_entry :: u32
  load_paddr :: u32
  link_paddr :: u32
  link_vaddr :: u32
  relocation_offset :: u32
  cmd_line :: u32
  cmd_line_len :: u32
  boot_info :: u32
  boot_module_paddr :: u32
  boot_module_size :: u32

text \<open>
  Modelled from the spec: the declarations of the RAM region and of \<^verbatim>\<open>vm_mem_t\<close> are not
  part of the sources at hand. The specification's MemoryRegion is \<open>{start, size}\<close>, a
  contiguous RAM range in a sequence ordered by start address; the source comment adds
  that regions carry an allocation flag. The fields \<^verbatim>\<open>start\<close> and \<^verbatim>\<open>size\<close> carry the
  prefix \<open>region_\<close>.
\<close>

record vm_ram_region =
  region_start :: u32
  region_size :: u32
  region_allocated :: bool

text \<open>
  \<^verbatim>\<open>vm_mem_t\<close>: the RAM region list (\<^verbatim>\<open>num_ram_regions\<close> is its length), the frame size
  in bits, the contents of guest physical memory as reached through \<^verbatim>\<open>vm_vspace\<close>, and
  for which guest addresses \<^verbatim>\<open>vspace_get_cap\<close> finds a frame capability.
\<close>

record vm_mem =
  ram_regions :: "vm_ram_region list"
  page_size :: nat
  vm_vspace :: guest_memory
  frame_cap :: "u32 \<Rightarrow> bool"

record vm =
  guest_image :: guest_image
  mem :: vm_mem

text \<open>
  Modelled from the spec: the ELF library is not part of the sources at hand. The
  specification's ProgramSegment is \<open>{file_offset, mem_vaddr, mem_paddr, file_size,
  mem_size}\<close>; with the header type and the entry point these are the parts of a parsed
  ELF32 file that the loader asks for. \<open>PT_LOAD\<close> is the type tag of a loadable segment.
\<close>

record elf_phdr =
  p_type :: u32
  p_offset :: u32
  p_vaddr :: u32
  p_paddr :: u32
  p_filesz :: u32
  p_memsz :: u32

record elf =
  e_entry :: u32
  e_phdrs :: "elf_phdr list"

definition PT_LOAD :: u32 where
  "PT_LOAD = 1"

text \<open>
  Modelled from the spec: the VBE block of the extended boot information is declared
  outside the sources at hand; it is reduced to the fields read here (the specification's
  "VESA-style mode information").
\<close>

record vbe_info =
  bytesPerScanLine :: "16 word"
  xRes :: "16 word"
  yRes :: "16 word"
  planes :: u8
  bitsPerPixel :: u8
  redLen :: u8
  redOff :: u8
  greenLen :: u8
  greenOff :: u8
  blueLen :: u8
  blueOff :: u8
  rsvdLen :: u8
  rsvdOff :: u8
  physBasePtr :: u32
  vbeInterfaceSeg :: u32
  vbeInterfaceOff :: u32
  vbeInterfaceLen :: u32

text \<open>
  Modelled from the spec: the boot-protocol structures are declared outside the sources
  at hand; they are reduced to the fields that the code assigns. The specification's
  MemoryMapEntry is \<open>{addr, size, type}\<close> with type RAM or RESERVED, and the boot-parameter
  block embeds an "e820-style map array with fixed maximum entry count": \<open>E820MAX\<close> is
  that count and \<open>E820_RAM\<close>, \<open>E820_RESERVED\<close> are the two type tags, with the values of
  the x86 boot protocol. The fields of an entry carry the prefix \<open>e820_\<close>, and the
  \<^verbatim>\<open>screen_info\<close> member of the block the prefix \<open>bp_\<close>.
\<close>

record screen_info =
  orig_video_isVGA :: u8
  lfb_width :: "16 word"
  lfb_height :: "16 word"
  lfb_depth :: "16 word"
  lfb_base :: u32
  lfb_size :: u32
  lfb_linelength :: "16 word"
  red_size :: u8
  red_pos :: u8
  green_size :: u8
  green_pos :: u8
  blue_size :: u8
  blue_pos :: u8
  rsvd_size :: u8
  rsvd_pos :: u8
  vesapm_seg :: "16 word"
  vesapm_off :: "16 word"
  pages :: "16 word"

record e820entry =
  e820_addr :: u64
  e820_size :: u64
  e820_type :: u32

record setup_header =
  header :: u32
  boot_flag :: "16 word"
  type_of_loader :: u8
  code32_start :: u32
  kernel_alignment :: u32
  relocatable_kernel :: u8
  cmd_line_ptr :: u32
  cmdline_size :: u32
  ramdisk_image :: u32
  ramdisk_size :: u32
  root_dev :: "16 word"
  version :: "16 word"

record boot_params =
  hdr :: setup_header
  bp_screen_info :: screen_info
  e820_entries :: u8
  e820_map :: "e820entry list"
  alt_mem_k :: u32

definition E820MAX :: nat where
  "E820MAX = 128"

definition E820_RAM :: u32 where
  "E820_RAM = 1"

definition E820_RESERVED :: u32 where
  "E820_RESERVED = 2"

text \<open>
  The collaborators that are called but not defined in the sources at hand are parameters
  of the model: the host file system behind \<^verbatim>\<open>fopen\<close> (a file is its byte contents,
  \<open>None\<close> when \<^verbatim>\<open>fopen\<close> returns \<^verbatim>\<open>NULL\<close>), the Region Tracker operations on the RAM region
  list, the ELF header parser, the capability and mapping services used while copying a
  segment, the firmware-info service, the device mapper, and the byte image of
  \<^verbatim>\<open>struct boot_params\<close> in host memory (its length is \<^verbatim>\<open>sizeof(struct boot_params)\<close>).
\<close>

record ext =
  fopen :: "string \<Rightarrow> u8 list option"
  guest_ram_largest_free_region_start :: "vm_ram_region list \<Rightarrow> u32"
  guest_ram_allocate :: "vm_ram_region list \<Rightarrow> u32 \<Rightarrow> u32 \<times> vm_ram_region list"
  guest_ram_mark_allocated :: "vm_ram_region list \<Rightarrow> u32 \<Rightarrow> u32 \<Rightarrow> vm_ram_region list"
  vmm_read_elf_headers :: "u8 list \<Rightarrow> elf option"
  vka_cspace_alloc_path :: int
  vspace_map_pages :: "u32 \<Rightarrow> bool"
  simple_get_extended_bootinfo :: "vbe_info option"
  CONFIG_VMM_VESA_FRAMEBUFFER :: bool
  vmm_map_guest_device_at :: "u32 \<Rightarrow> u32 \<Rightarrow> u32 \<Rightarrow> int"
  vmm_map_guest_device :: "u32 \<Rightarrow> u32 \<Rightarrow> u32 \<Rightarrow> u32"
  boot_params_bytes :: "boot_params \<Rightarrow> u8 list"

section \<open>Kernel relocation\<close>

text \<open>
  One pass of the body of the loop in \<^verbatim>\<open>vmm_plat_guest_elf_relocate\<close> after the two
  assertions: read the word at the guest-physical address of \<open>vaddr\<close>, add \<open>delta\<close>,
  write it back. The return value of both touches is ignored by the source; the local
  \<^verbatim>\<open>addr\<close> is four bytes that the read callback fills.
\<close>

definition relocate_word :: "guest_image \<Rightarrow> u32 \<Rightarrow> u32 \<Rightarrow> guest_memory \<Rightarrow> u32 \<Rightarrow> abort + guest_memory" where
  "relocate_word img load_addr delta m vaddr =
     (let guest_paddr = vaddr - link_vaddr img + (load_addr + delta) in
      case vmm_guest_vspace_touch guest_elf_read_address guest_paddr 4 (m, replicate 4 0) of
        Inl a \<Rightarrow> Inl a
      | Inr (r1, (m1, addr_buf)) \<Rightarrow>
          (let addr = u32_of_bytes addr_buf + delta in
           case vmm_guest_vspace_touch guest_elf_write_address guest_paddr 4 (m1, bytes_of_u32 addr) of
             Inl a \<Rightarrow> Inl a
           | Inr (r2, (m2, addr_buf2)) \<Rightarrow> Inr m2))"

text \<open>
  The backward scan. \<open>i\<close> is the loop counter; the result carries its final value, the
  number of relocation entries that were applied. \<^verbatim>\<open>offset\<close> is computed in
  \<^verbatim>\<open>uint32_t\<close>, so it wraps once \<open>4 * (i + 1)\<close> exceeds the file size, and the read
  at the wrapped offset fails.
\<close>

function relocate_loop ::
  "u8 list \<Rightarrow> guest_image \<Rightarrow> u32 \<Rightarrow> u32 \<Rightarrow> guest_memory \<Rightarrow> nat \<Rightarrow> abort + (nat \<times> guest_memory)" where
  "relocate_loop file img load_addr delta m i =
     (let relocs_size = length file;
          offset = (of_nat relocs_size - 4 * (of_nat i + 1) :: u32)
      in case fread_at file (unat offset) 4 of
           None \<Rightarrow> Inl (LogFatal ''Read failed unexpectedly'')
         | Some bs \<Rightarrow>
             (let vaddr = u32_of_bytes bs in
              if vaddr = 0 then Inr (i, m)
              else if \<not> i * 4 < relocs_size then Inl (AssertFailed ''i * sizeof(uint32_t) < relocs_size'')
              else if \<not> link_vaddr img \<le> vaddr then Inl (AssertFailed ''vaddr >= (uint32_t)image->link_vaddr'')
              else (case relocate_word img load_addr delta m vaddr of
                      Inl a \<Rightarrow> Inl a
                    | Inr m' \<Rightarrow> relocate_loop file img load_addr delta m' (i + 1))))"
  by pat_completeness auto
termination
  by (relation "measure (\<lambda>(file, img, load_addr, delta, m, i). length file - 4 * i)") auto

declare relocate_loop.simps [simp del]

definition vmm_plat_guest_elf_relocate :: "ext \<Rightarrow> vm \<Rightarrow> string \<Rightarrow> abort + vm" where
  "vmm_plat_guest_elf_relocate X v relocs_filename =
     (let img = guest_image v; delta = relocation_offset img in
      if delta = 0 then Inr v
      else
        (let load_addr = link_paddr img in
         case fopen X relocs_filename of
           None \<Rightarrow> Inl (Panic ''Relocation required but relocation data file not found.'')
         | Some file \<Rightarrow>
             (let relocs_size = length file;
                  num_relocations = (of_nat (relocs_size div 4) - 1 :: u32)
              in case relocate_loop file img load_addr delta (vm_vspace (mem v)) 0 of
                   Inl a \<Rightarrow> Inl a
                 | Inr (i, m') \<Rightarrow>
                     if num_relocations = 0
                     then Inl (Panic ''Relocation required, but Kernel has not been build with CONFIG_RELOCATABLE.'')
                     else Inr (v\<lparr>mem := (mem v)\<lparr>vm_vspace := m'\<rparr>\<rparr>))))"

section \<open>Boot module\<close>

definition vmm_guest_load_boot_module_continued :: "(guest_memory \<times> u8 list) touch_callback" where
  "vmm_guest_load_boot_module_continued paddr sz offset s =
     (case s of (m, file) \<Rightarrow>
        (case fread_at file offset sz of
           None \<Rightarrow> Inl (LogFatal ''Read failed unexpectedly'')
         | Some bs \<Rightarrow> Inr (0, (write_bytes m paddr bs, file))))"

definition vmm_guest_load_boot_module :: "ext \<Rightarrow> vm \<Rightarrow> string \<Rightarrow> abort + (int \<times> vm)" where
  "vmm_guest_load_boot_module X v name =
     (let load_addr = guest_ram_largest_free_region_start X (ram_regions (mem v)) in
      case fopen X name of
        None \<Rightarrow> Inr (- 1, v)
      | Some file \<Rightarrow>
          (let initrd_size = (of_nat (length file) :: u32) in
           if initrd_size = 0 then Inr (- 1, v)
           else
             (let img = (guest_image v)\<lparr>boot_module_paddr := load_addr, boot_module_size := initrd_size\<rparr>;
                  regions = guest_ram_mark_allocated X (ram_regions (mem v)) load_addr initrd_size
              in case vmm_guest_vspace_touch vmm_guest_load_boot_module_continued load_addr initrd_size
                        (vm_vspace (mem v), file) of
                   Inl a \<Rightarrow> Inl a
                 | Inr (r, (m', f)) \<Rightarrow>
                     Inr (0, v\<lparr>guest_image := img,
                               mem := (mem v)\<lparr>ram_regions := regions, vm_vspace := m'\<rparr>\<rparr>))))"

section \<open>Boot structures\<close>

subsection \<open>Command line\<close>

text \<open>
  The command line is a host buffer holding a NUL-terminated string; \<^verbatim>\<open>strlen\<close> counts
  the bytes before the first zero byte. \<^verbatim>\<open>int len\<close> and the sizes derived from it are
  32-bit values.
\<close>

definition strlen :: "u8 list \<Rightarrow> nat" where
  "strlen buf = length (takeWhile (\<lambda>c. c \<noteq> 0) buf)"

definition make_guest_cmd_line_continued :: "(guest_memory \<times> u8 list) touch_callback" where
  "make_guest_cmd_line_continued phys sz offset s =
     (case s of (m, cmdline) \<Rightarrow> Inr (0, (write_bytes m phys (take sz (drop offset cmdline)), cmdline)))"

definition make_guest_cmd_line :: "ext \<Rightarrow> vm \<Rightarrow> u8 list \<Rightarrow> abort + (int \<times> vm)" where
  "make_guest_cmd_line X v cmdline =
     (let len = (of_nat (strlen cmdline) :: u32) in
      case guest_ram_allocate X (ram_regions (mem v)) (len + 1) of
        (cmd_addr, regions) \<Rightarrow>
          if cmd_addr = 0 then Inr (- 1, v\<lparr>mem := (mem v)\<lparr>ram_regions := regions\<rparr>\<rparr>)
          else
            (let img = (guest_image v)\<lparr>cmd_line := cmd_addr, cmd_line_len := len\<rparr> in
             case vmm_guest_vspace_touch make_guest_cmd_line_continued cmd_addr (len + 1)
                    (vm_vspace (mem v), cmdline) of
               Inl a \<Rightarrow> Inl a
             | Inr (r, (m', c)) \<Rightarrow>
                 Inr (r, v\<lparr>guest_image := img,
                           mem := (mem v)\<lparr>ram_regions := regions, vm_vspace := m'\<rparr>\<rparr>)))"

subsection \<open>Screen information\<close>

text \<open>
  Modelled from the spec: the rounding macros \<^verbatim>\<open>ROUND_UP\<close>, \<^verbatim>\<open>ROUND_DOWN\<close> and
  \<^verbatim>\<open>ALIGN_UP\<close> are not part of the sources at hand. The specification has the loader
  "round that address up to the requested alignment" and the frame buffer size "rounded
  up to 64KiB"; they are taken as rounding to a multiple, in 32-bit arithmetic.
\<close>

definition ROUND_DOWN :: "u32 \<Rightarrow> u32 \<Rightarrow> u32" where
  "ROUND_DOWN n b = n - n mod b"

definition ROUND_UP :: "u32 \<Rightarrow> u32 \<Rightarrow> u32" where
  "ROUND_UP n b = (if n mod b = 0 then n else n + (b - n mod b))"

definition ALIGN_UP :: "u32 \<Rightarrow> u32 \<Rightarrow> u32" where
  "ALIGN_UP n b = ROUND_UP n b"

definition vmm_plat_vesa_fbuffer_size :: "vbe_info \<Rightarrow> u32" where
  "vmm_plat_vesa_fbuffer_size block = ALIGN_UP (ucast (bytesPerScanLine block) * ucast (yRes block)) 65536"

definition zero_screen_info :: screen_info where
  "zero_screen_info =
     \<lparr>orig_video_isVGA = 0, lfb_width = 0, lfb_height = 0, lfb_depth = 0, lfb_base = 0, lfb_size = 0,
      lfb_linelength = 0, red_size = 0, red_pos = 0, green_size = 0, green_pos = 0, blue_size = 0,
      blue_pos = 0, rsvd_size = 0, rsvd_pos = 0, vesapm_seg = 0, vesapm_off = 0, pages = 0\<rparr>"

definition make_guest_screen_info :: "ext \<Rightarrow> screen_info \<Rightarrow> screen_info" where
  "make_guest_screen_info X info =
     (let base =
        (case simple_get_extended_bootinfo X of
           None \<Rightarrow> 0
         | Some vbeinfo \<Rightarrow>
             if \<not> CONFIG_VMM_VESA_FRAMEBUFFER X then 0
             else
               (let pm_base = push_bit 4 (vbeInterfaceSeg vbeinfo) + vbeInterfaceOff vbeinfo;
                    error =
                      (if 0xc000 < pm_base then
                         (let aligned_pm = ROUND_DOWN pm_base (of_nat PAGE_SIZE_4K);
                              sz = ROUND_UP (vbeInterfaceLen vbeinfo + (pm_base - aligned_pm)) (of_nat PAGE_SIZE_4K)
                          in vmm_map_guest_device_at X aligned_pm aligned_pm sz)
                       else 0)
                in if error \<noteq> 0 then 0
                   else vmm_map_guest_device X (physBasePtr vbeinfo) (vmm_plat_vesa_fbuffer_size vbeinfo)
                          (of_nat PAGE_SIZE_4K)))
      in if base \<noteq> 0 then
           (case simple_get_extended_bootinfo X of
              None \<Rightarrow> zero_screen_info
            | Some vbeinfo \<Rightarrow>
                info\<lparr>orig_video_isVGA := 0x23,
                     lfb_width := xRes vbeinfo,
                     lfb_height := yRes vbeinfo,
                     lfb_depth := ucast (bitsPerPixel vbeinfo),
                     lfb_base := base,
                     lfb_size := drop_bit 16 (vmm_plat_vesa_fbuffer_size vbeinfo),
                     lfb_linelength := bytesPerScanLine vbeinfo,
                     red_size := redLen vbeinfo,
                     red_pos := redOff vbeinfo,
                     green_size := greenLen vbeinfo,
                     green_pos := greenOff vbeinfo,
                     blue_size := blueLen vbeinfo,
                     blue_pos := blueOff vbeinfo,
                     rsvd_size := rsvdLen vbeinfo,
                     rsvd_pos := rsvdOff vbeinfo,
                     vesapm_seg := ucast (vbeInterfaceSeg vbeinfo),
                     vesapm_off := ucast (vbeInterfaceOff vbeinfo),
                     pages := ucast (planes vbeinfo)\<rparr>)
         else zero_screen_info)"

subsection \<open>The e820 memory map\<close>

text \<open>Sequencing of computations that may abort.\<close>

definition bnd :: "abort + 'a \<Rightarrow> ('a \<Rightarrow> abort + 'b) \<Rightarrow> abort + 'b" where
  "bnd r f = (case r of Inl a \<Rightarrow> Inl a | Inr x \<Rightarrow> f x)"

definition assert_that :: "bool \<Rightarrow> string \<Rightarrow> abort + unit" where
  "assert_that c msg = (if c then Inr () else Inl (AssertFailed msg))"

text \<open>
  The table \<^verbatim>\<open>e820\<close> is an array of \<open>E820MAX\<close> entries, updated by index; \<open>entry\<close>
  is the index of the entry under construction. One pass of the loop body for the RAM
  region \<open>r\<close>; all arithmetic is in the 64-bit type of the table fields.
\<close>

definition e820_region_step ::
  "e820entry list \<times> nat \<Rightarrow> vm_ram_region \<Rightarrow> abort + (e820entry list \<times> nat)" where
  "e820_region_step s r =
     (case s of (e, entry) \<Rightarrow>
        (let start = (ucast (region_start r) :: u64) in
         bnd (if e820_addr (e ! entry) + e820_size (e ! entry) \<noteq> start then
                bnd (if e820_size (e ! entry) \<noteq> 0 then
                       (let entry1 = entry + 1 in
                        bnd (assert_that (entry1 < E820MAX) ''entry < E820MAX'')
                          (\<lambda>_. Inr (e[entry1 := (e ! entry1)
                                      \<lparr>e820_addr := e820_addr (e ! (entry1 - 1)) + e820_size (e ! (entry1 - 1)),
                                       e820_type := E820_RESERVED\<rparr>],
                                    entry1)))
                     else Inr (e, entry))
                  (\<lambda>(e1, entry1).
                     (let e2 = e1[entry1 := (e1 ! entry1)\<lparr>e820_size := start - e820_addr (e1 ! entry1)\<rparr>];
                          entry2 = entry1 + 1
                      in bnd (assert_that (entry2 < E820MAX) ''entry < E820MAX'')
                           (\<lambda>_. Inr (e2[entry2 := (e2 ! entry2)\<lparr>e820_addr := start, e820_type := E820_RAM\<rparr>],
                                     entry2))))
              else Inr (e, entry))
           (\<lambda>(e3, entry3).
              Inr (e3[entry3 := (e3 ! entry3)
                        \<lparr>e820_size := start - e820_addr (e3 ! entry3) + ucast (region_size r)\<rparr>],
                   entry3))))"

fun e820_regions_loop ::
  "e820entry list \<times> nat \<Rightarrow> vm_ram_region list \<Rightarrow> abort + (e820entry list \<times> nat)" where
  "e820_regions_loop s [] = Inr s"
| "e820_regions_loop s (r # rs) = bnd (e820_region_step s r) (\<lambda>s'. e820_regions_loop s' rs)"

text \<open>
  The end of \<^verbatim>\<open>make_guest_e820_map\<close>, after the region loop: one more entry that
  reaches up to \<open>0x100000000\<close>, then the assertion on every entry of the final map. The
  result is the number of entries \<open>entry + 1\<close> together with the table.
\<close>

definition e820_final_entry :: "e820entry list \<times> nat \<Rightarrow> abort + (nat \<times> e820entry list)" where
  "e820_final_entry s =
     (case s of (e1, entry1) \<Rightarrow>
        (let entry = entry1 + 1 in
         bnd (assert_that (entry < E820MAX) ''entry < E820MAX'')
           (\<lambda>_. (let e2 = e1[entry := (e1 ! entry)
                                \<lparr>e820_addr := e820_addr (e1 ! (entry - 1)) + e820_size (e1 ! (entry - 1))\<rparr>];
                      e3 = e2[entry := (e2 ! entry)\<lparr>e820_size := 0x100000000 - e820_addr (e2 ! entry)\<rparr>];
                      e4 = e3[entry := (e3 ! entry)\<lparr>e820_type := E820_RESERVED\<rparr>]
                  in bnd (assert_that
                            (list_all (\<lambda>x. e820_addr x < e820_addr x + e820_size x) (take (entry + 1) e4))
                            ''e820[i].addr < e820[i].addr + e820[i].size'')
                       (\<lambda>_. Inr (entry + 1, e4))))))"

definition make_guest_e820_map :: "e820entry list \<Rightarrow> vm_mem \<Rightarrow> abort + (nat \<times> e820entry list)" where
  "make_guest_e820_map e820 guest_memory =
     (let e0 = e820[0 := (e820 ! 0)\<lparr>e820_addr := 0, e820_size := 0, e820_type := E820_RESERVED\<rparr>] in
      bnd (assert_that (0 < length (ram_regions guest_memory)) ''guest_memory->num_ram_regions > 0'')
        (\<lambda>_. bnd (e820_regions_loop (e0, 0) (ram_regions guest_memory)) e820_final_entry))"

subsection \<open>The boot-parameter block\<close>

definition zero_boot_params :: boot_params where
  "zero_boot_params =
     \<lparr>hdr = \<lparr>header = 0, boot_flag = 0, type_of_loader = 0, code32_start = 0, kernel_alignment = 0,
             relocatable_kernel = 0, cmd_line_ptr = 0, cmdline_size = 0, ramdisk_image = 0,
             ramdisk_size = 0, root_dev = 0, version = 0\<rparr>,
      bp_screen_info = zero_screen_info,
      e820_entries = 0,
      e820_map = replicate E820MAX \<lparr>e820_addr = 0, e820_size = 0, e820_type = 0\<rparr>,
      alt_mem_k = 0\<rparr>"

text \<open>
  The part of \<^verbatim>\<open>make_guest_boot_info\<close> that fills the local \<^verbatim>\<open>struct boot_params boot_info\<close>,
  from the \<^verbatim>\<open>memset\<close> to the ramdisk fields. \<open>v\<close> is the VM after the allocation.
\<close>

definition make_guest_boot_info_block :: "ext \<Rightarrow> vm \<Rightarrow> abort + boot_params" where
  "make_guest_boot_info_block X v =
     (let img = guest_image v;
          b0 = zero_boot_params;
          b1 = b0\<lparr>hdr := (hdr b0)\<lparr>header := 0x53726448\<rparr>\<rparr>;
          b2 = b1\<lparr>hdr := (hdr b1)\<lparr>boot_flag := 0xAA55\<rparr>\<rparr>;
          b3 = b2\<lparr>hdr := (hdr b2)\<lparr>type_of_loader := 0xFF\<rparr>\<rparr>;
          b4 = b3\<lparr>hdr := (hdr b3)\<lparr>code32_start := load_paddr img\<rparr>\<rparr>;
          b5 = b4\<lparr>hdr := (hdr b4)\<lparr>kernel_alignment := image_alignment img\<rparr>\<rparr>;
          b6 = b5\<lparr>hdr := (hdr b5)\<lparr>relocatable_kernel := 1\<rparr>\<rparr>;
          b7 = b6\<lparr>bp_screen_info := make_guest_screen_info X (bp_screen_info b6)\<rparr>
      in bnd (make_guest_e820_map (e820_map b7) (mem v))
           (\<lambda>(n, e).
              (let b8 = b7\<lparr>e820_map := e, e820_entries := of_nat n\<rparr>;
                   b9 = b8\<lparr>hdr := (hdr b8)\<lparr>cmd_line_ptr := cmd_line img\<rparr>\<rparr>;
                   b10 = b9\<lparr>hdr := (hdr b9)\<lparr>cmdline_size := cmd_line_len img\<rparr>\<rparr>;
                   b11 = b10\<lparr>alt_mem_k := 0\<rparr>
               in Inr (if boot_module_paddr img \<noteq> 0
                       then b11\<lparr>hdr := (hdr b11)\<lparr>ramdisk_image := boot_module_paddr img,
                                                 ramdisk_size := boot_module_size img,
                                                 root_dev := 0x0100,
                                                 version := 0x0204\<rparr>\<rparr>
                       else b11\<lparr>hdr := (hdr b11)\<lparr>version := 0x0202\<rparr>\<rparr>))))"

definition make_guest_boot_info :: "ext \<Rightarrow> vm \<Rightarrow> abort + (int \<times> vm)" where
  "make_guest_boot_info X v =
     (case guest_ram_allocate X (ram_regions (mem v))
             (of_nat (length (boot_params_bytes X zero_boot_params))) of
        (addr, regions) \<Rightarrow>
          if addr = 0 then Inr (- 1, v\<lparr>mem := (mem v)\<lparr>ram_regions := regions\<rparr>\<rparr>)
          else
            (let v1 = v\<lparr>guest_image := (guest_image v)\<lparr>boot_info := addr\<rparr>,
                        mem := (mem v)\<lparr>ram_regions := regions\<rparr>\<rparr>
             in bnd (make_guest_boot_info_block X v1)
                  (\<lambda>b. bnd (vmm_guest_vspace_touch guest_elf_write_address addr
                                (of_nat (length (boot_params_bytes X b)))
                                (vm_vspace (mem v1), boot_params_bytes X b))
                          (\<lambda>(r, (m', c)). Inr (r, v1\<lparr>mem := (mem v1)\<lparr>vm_vspace := m'\<rparr>\<rparr>)))))"

section \<open>The ELF segment loader\<close>

text \<open>
  The loop of \<^verbatim>\<open>vmm_load_guest_segment\<close>. Each pass looks up the frame behind
  \<open>dest_addr\<close>, maps it into the host, and fills the part of that frame from
  \<open>dest_addr\<close> on: with file bytes while \<open>remain\<close> is positive, with zeros afterwards.
  \<open>offset\<close> is \<^verbatim>\<open>dest_addr & (BIT(page_size) - 1)\<close>. The counters \<open>current\<close> and
  \<open>remain\<close> are kept as natural numbers; they stay below \<open>segment_size + 2 ^ page_size\<close>.
\<close>

function load_segment_loop ::
  "ext \<Rightarrow> vm_mem \<Rightarrow> u8 list \<Rightarrow> nat \<Rightarrow> u32 \<Rightarrow> u32 \<Rightarrow> nat \<Rightarrow> nat \<Rightarrow> guest_memory \<Rightarrow>
     abort + (int \<times> guest_memory)" where
  "load_segment_loop X gm file segment_size source_offset dest_addr current remain m =
     (if current < segment_size then
        (if \<not> frame_cap gm dest_addr then Inr (- 1, m)
         else if \<not> vspace_map_pages X dest_addr then Inr (- 1, m)
         else
           (let offset = unat dest_addr mod 2 ^ page_size gm;
                copy_len = 2 ^ page_size gm - offset
            in if 0 < remain then
                 (let copy_len = (if remain < copy_len then remain else copy_len) in
                  case fread_at file (unat source_offset) copy_len of
                    None \<Rightarrow> Inl (LogFatal ''Read failed unexpectedly'')
                  | Some bs \<Rightarrow>
                      load_segment_loop X gm file segment_size
                        (source_offset + of_nat copy_len) (dest_addr + of_nat copy_len)
                        (current + copy_len) (remain - copy_len) (write_bytes m dest_addr bs))
               else
                 load_segment_loop X gm file segment_size
                   source_offset (dest_addr + of_nat copy_len)
                   (current + copy_len) remain (write_bytes m dest_addr (replicate copy_len 0))))
      else Inr (0, m))"
  by pat_completeness auto
termination
proof (relation "measure (\<lambda>(X, gm, file, segment_size, source_offset, dest_addr, current, remain, m).
                             segment_size - current)", goal_cases)
  case 1
  show ?case by simp
next
  case (2 X gm fl segment_size source_offset dest_addr current remain m offset copy_len copy_len' bs)
  have "0 < copy_len" using 2(4,5) by simp
  with 2(6,7) have "0 < copy_len'" by (simp split: if_splits)
  with 2(1) show ?case by simp
next
  case (3 X gm fl segment_size source_offset dest_addr current remain m offset copy_len)
  have "0 < copy_len" using 3(4,5) by simp
  with 3(1) show ?case by simp
qed

declare load_segment_loop.simps [simp del]

definition vmm_load_guest_segment ::
  "ext \<Rightarrow> vm_mem \<Rightarrow> u32 \<Rightarrow> u32 \<Rightarrow> u32 \<Rightarrow> u32 \<Rightarrow> u8 list \<Rightarrow> abort + (int \<times> guest_memory)" where
  "vmm_load_guest_segment X gm source_offset dest_addr segment_size file_size file =
     bnd (assert_that (file_size \<le> segment_size) ''file_size <= segment_size'')
       (\<lambda>_. if vka_cspace_alloc_path X \<noteq> 0 then Inr (vka_cspace_alloc_path X, vm_vspace gm)
             else load_segment_loop X gm file (unat segment_size) source_offset dest_addr 0 (unat file_size)
                    (vm_vspace gm))"

text \<open>The first loop of \<^verbatim>\<open>vmm_load_guest_elf\<close>: the least physical and virtual address
  over the \<open>PT_LOAD\<close> headers, starting from \<open>0xFFFFFFFF\<close>.\<close>

fun guest_kernel_addrs :: "elf_phdr list \<Rightarrow> u32 \<times> u32 \<Rightarrow> u32 \<times> u32" where
  "guest_kernel_addrs [] acc = acc"
| "guest_kernel_addrs (h # hs) (guest_kernel_addr, guest_kernel_vaddr) =
     (if p_type h \<noteq> PT_LOAD then guest_kernel_addrs hs (guest_kernel_addr, guest_kernel_vaddr)
      else guest_kernel_addrs hs
             (if p_paddr h < guest_kernel_addr then p_paddr h else guest_kernel_addr,
              if p_vaddr h < guest_kernel_vaddr then p_vaddr h else guest_kernel_vaddr))"

text \<open>The second loop: load every \<open>PT_LOAD\<close> header of nonzero memory size and record its
  destination as allocated. A nonzero return of the segment loader ends the loop.\<close>

fun load_segments :: "ext \<Rightarrow> u8 list \<Rightarrow> u32 \<Rightarrow> elf_phdr list \<Rightarrow> vm_mem \<Rightarrow> abort + (int \<times> vm_mem)" where
  "load_segments X file guest_relocation_offset [] gm = Inr (0, gm)"
| "load_segments X file guest_relocation_offset (h # hs) gm =
     (if p_type h \<noteq> PT_LOAD then load_segments X file guest_relocation_offset hs gm
      else
        (let source_offset = p_offset h;
             file_size = p_filesz h;
             segment_size = p_memsz h;
             dest_addr = p_paddr h + guest_relocation_offset
         in if segment_size = 0 then load_segments X file guest_relocation_offset hs gm
            else
              bnd (vmm_load_guest_segment X gm source_offset dest_addr segment_size file_size file)
                (\<lambda>(ret, m').
                   if ret \<noteq> 0 then Inr (ret, gm\<lparr>vm_vspace := m'\<rparr>)
                   else load_segments X file guest_relocation_offset hs
                          (gm\<lparr>vm_vspace := m',
                              ram_regions := guest_ram_mark_allocated X (ram_regions gm) dest_addr segment_size\<rparr>))))"

text \<open>
  \<^verbatim>\<open>vmm_load_guest_elf\<close>. The relocation offset is the difference of the two addresses
  taken in 64 bits and then converted to \<^verbatim>\<open>int\<close>, which keeps its low 32 bits.
\<close>

definition vmm_load_guest_elf :: "ext \<Rightarrow> vm \<Rightarrow> string \<Rightarrow> u32 \<Rightarrow> abort + (int \<times> vm)" where
  "vmm_load_guest_elf X v elfname alignment =
     (case fopen X elfname of
        None \<Rightarrow> Inr (- 1, v)
      | Some file \<Rightarrow>
          (case vmm_read_elf_headers X file of
             None \<Rightarrow> Inr (- 1, v)
           | Some elf \<Rightarrow>
               (let load_addr = ROUND_UP (guest_ram_largest_free_region_start X (ram_regions (mem v))) alignment in
                case guest_kernel_addrs (e_phdrs elf) (0xFFFFFFFF, 0xFFFFFFFF) of
                  (guest_kernel_addr, guest_kernel_vaddr) \<Rightarrow>
                    (let guest_relocation_offset = (word_of_int (uint load_addr - uint guest_kernel_addr) :: u32) in
                     bnd (load_segments X file guest_relocation_offset (e_phdrs elf) (mem v))
                       (\<lambda>(ret, gm).
                          if ret \<noteq> 0 then Inr (ret, v\<lparr>mem := gm\<rparr>)
                          else Inr (0, v\<lparr>mem := gm,
                                         guest_image := (guest_image v)
                                           \<lparr>image_entry := e_entry elf + guest_relocation_offset,
                                            load_paddr := load_addr,
                                            link_paddr := guest_kernel_addr,
                                            link_vaddr := guest_kernel_vaddr,
                                            relocation_offset := guest_relocation_offset,
                                            image_alignment := alignment\<rparr>\<rparr>))))))"

section \<open>Concrete configurations\<close>

text \<open>A small VM and collaborators with fixed answers, used to run the functions above.\<close>

definition zero_memory :: guest_memory where
  "zero_memory = (\<lambda>a. 0)"

definition example_image :: guest_image where
  "example_image =
     \<lparr>image_alignment = 0x1000, image_entry = 0x200000, load_paddr = 0x200000, link_paddr = 0x100000,
      link_vaddr = 0x100000, relocation_offset = 0x100000, cmd_line = 0, cmd_line_len = 0,
      boot_info = 0, boot_module_paddr = 0, boot_module_size = 0\<rparr>"

definition example_vm :: vm where
  "example_vm =
     \<lparr>guest_image = example_image,
      mem = \<lparr>ram_regions = [\<lparr>region_start = 0x100000, region_size = 0x100000, region_allocated = False\<rparr>],
             page_size = 12, vm_vspace = zero_memory, frame_cap = (\<lambda>a. True)\<rparr>\<rparr>"

definition example_ext :: "(string \<times> u8 list) list \<Rightarrow> ext" where
  "example_ext files =
     \<lparr>fopen = map_of files,
      guest_ram_largest_free_region_start = (\<lambda>rs. 0x200000),
      guest_ram_allocate = (\<lambda>rs sz. (0x300000, rs)),
      guest_ram_mark_allocated = (\<lambda>rs a sz. rs),
      vmm_read_elf_headers = (\<lambda>f. None),
      vka_cspace_alloc_path = 0,
      vspace_map_pages = (\<lambda>a. True),
      simple_get_extended_bootinfo = None,
      CONFIG_VMM_VESA_FRAMEBUFFER = False,
      vmm_map_guest_device_at = (\<lambda>a b c. 0),
      vmm_map_guest_device = (\<lambda>a b c. 0),
      boot_params_bytes = (\<lambda>b. bytes_of_u32 (header (hdr b)))\<rparr>"

text \<open>Relocation tables: two entries after their terminator, the same three words with the
  zero word last, and the documented layout with both lists empty.\<close>

definition relocs_terminator_first :: "u8 list" where
  "relocs_terminator_first = bytes_of_u32 0 @ bytes_of_u32 0x00100010 @ bytes_of_u32 0x00100020"

definition relocs_terminator_last :: "u8 list" where
  "relocs_terminator_last = bytes_of_u32 0x00100010 @ bytes_of_u32 0x00100020 @ bytes_of_u32 0"

definition relocs_two_terminators :: "u8 list" where
  "relocs_two_terminators = bytes_of_u32 0 @ bytes_of_u32 0"

text \<open>A string literal as the bytes of a C string, terminator included.\<close>

definition c_string :: "string \<Rightarrow> u8 list" where
  "c_string s = map (\<lambda>c. of_nat (of_char c)) s @ [0]"

text \<open>
  Vocabulary for the memory map: the addresses an entry or a RAM region covers (as
  mathematical intervals), the addresses reported as RAM by a list of entries, regions
  sorted by start address without overlap, and consecutive entries that abut.
\<close>

definition entry_range :: "e820entry \<Rightarrow> nat set" where
  "entry_range x = {unat (e820_addr x) ..< unat (e820_addr x) + unat (e820_size x)}"

definition region_range :: "vm_ram_region \<Rightarrow> nat set" where
  "region_range r = {unat (region_start r) ..< unat (region_start r) + unat (region_size r)}"

definition ram_ranges :: "e820entry list \<Rightarrow> nat set" where
  "ram_ranges es = \<Union> (entry_range ` {x \<in> set es. e820_type x = E820_RAM})"

fun regions_sorted :: "vm_ram_region list \<Rightarrow> bool" where
  "regions_sorted (r # s # rs) =
     (unat (region_start r) + unat (region_size r) \<le> unat (region_start s) \<and> regions_sorted (s # rs))"
| "regions_sorted rs = True"

fun abutting :: "e820entry list \<Rightarrow> bool" where
  "abutting (x # y # es) =
     (unat (e820_addr x) + unat (e820_size x) = unat (e820_addr y) \<and> abutting (y # es))"
| "abutting es = True"

text \<open>The region lists of the examples, and the table as \<^verbatim>\<open>make_guest_boot_info\<close>
  passes it (zeroed by \<^verbatim>\<open>memset\<close>).\<close>

definition spec_example_regions :: vm_mem where
  "spec_example_regions =
     \<lparr>ram_regions = [\<lparr>region_start = 0x100000, region_size = 0x100000, region_allocated = False\<rparr>],
      page_size = 12, vm_vspace = zero_memory, frame_cap = (\<lambda>a. True)\<rparr>"

definition ram_at_zero_regions :: vm_mem where
  "ram_at_zero_regions =
     \<lparr>ram_regions = [\<lparr>region_start = 0, region_size = 0x1000, region_allocated = False\<rparr>],
      page_size = 12, vm_vspace = zero_memory, frame_cap = (\<lambda>a. True)\<rparr>"

definition empty_e820_table :: "e820entry list" where
  "empty_e820_table = replicate E820MAX \<lparr>e820_addr = 0, e820_size = 0, e820_type = 0\<rparr>"

text \<open>
  The invariant of the region loop in \<^verbatim>\<open>make_guest_e820_map\<close>, on the entries
  \<open>e820[0..entry]\<close> written so far: the first starts at address 0, consecutive entries
  abut, every entry is non-empty and ends at or below \<open>c\<close>, and the entry under
  construction is a RAM entry that ends at \<open>c\<close>.
\<close>

definition e820_prefix_ok :: "e820entry list \<Rightarrow> nat \<Rightarrow> bool" where
  "e820_prefix_ok P c \<longleftrightarrow>
     P \<noteq> [] \<and> e820_addr (hd P) = 0 \<and> abutting P \<and>
     list_all (\<lambda>x. e820_size x \<noteq> 0 \<and> unat (e820_addr x) + unat (e820_size x) \<le> c) P \<and>
     unat (e820_addr (last P)) + unat (e820_size (last P)) = c \<and>
     e820_type (last P) = E820_RAM"

text \<open>
  A guest kernel for the loader: a file of four bytes and an ELF description with one
  \<open>PT_LOAD\<close> segment linked at \<open>0x100000\<close>; collaborators whose Region Tracker reports
  a given start of the largest free region and whose ELF parser returns a given ELF.
\<close>

definition example_kernel_file :: "u8 list" where
  "example_kernel_file = [1, 2, 3, 4]"

definition example_elf :: elf where
  "example_elf =
     \<lparr>e_entry = 0x100000,
      e_phdrs = [\<lparr>p_type = PT_LOAD, p_offset = 0, p_vaddr = 0xC0100000, p_paddr = 0x100000,
                  p_filesz = 4, p_memsz = 4\<rparr>]\<rparr>"

definition loader_ext :: "u32 \<Rightarrow> elf \<Rightarrow> (string \<times> u8 list) list \<Rightarrow> ext" where
  "loader_ext start parsed files =
     (example_ext files)\<lparr>guest_ram_largest_free_region_start := (\<lambda>rs. start),
                          vmm_read_elf_headers := (\<lambda>f. Some parsed)\<rparr>"

text \<open>The load of that kernel when the largest free region starts at \<open>0x80100000\<close>, and
  when it starts at \<open>0x200000\<close>.\<close>

definition high_load_result :: "abort + (int \<times> vm)" where
  "high_load_result =
     vmm_load_guest_elf (loader_ext 0x80100000 example_elf [(''linux'', example_kernel_file)])
       example_vm ''linux'' 0x1000"

definition low_load_result :: "abort + (int \<times> vm)" where
  "low_load_result =
     vmm_load_guest_elf (loader_ext 0x200000 example_elf [(''linux'', example_kernel_file)])
       example_vm ''linux'' 0x1000"

text \<open>
  An ELF description with two \<open>PT_LOAD\<close> segments that do not overlap but lie in the
  same 4 KiB page: four file bytes at \<open>0x100800\<close>, listed first, and sixteen bytes of
  zero-initialised data (no file bytes) at \<open>0x100000\<close>.
\<close>

definition shared_page_elf :: elf where
  "shared_page_elf =
     \<lparr>e_entry = 0x100000,
      e_phdrs = [\<lparr>p_type = PT_LOAD, p_offset = 0, p_vaddr = 0xC0100800, p_paddr = 0x100800,
                  p_filesz = 4, p_memsz = 4\<rparr>,
                 \<lparr>p_type = PT_LOAD, p_offset = 4, p_vaddr = 0xC0100000, p_paddr = 0x100000,
                  p_filesz = 0, p_memsz = 0x10\<rparr>]\<rparr>"

definition shared_page_result :: "abort + (int \<times> vm)" where
  "shared_page_result =
     vmm_load_guest_elf (loader_ext 0x200000 shared_page_elf [(''linux'', example_kernel_file)])
       example_vm ''linux'' 0x1000"

text \<open>A single RAM region that reaches the top of the 32-bit address space.\<close>

definition ram_to_top_regions :: vm_mem where
  "ram_to_top_regions =
     \<lparr>ram_regions = [\<lparr>region_start = 0xFFFFF000, region_size = 0x1000, region_allocated = False\<rparr>],
      page_size = 12, vm_vspace = zero_memory, frame_cap = (\<lambda>a. True)\<rparr>"

section \<open>Bytes, words and the Address-Space Writer\<close>

lemma u32_of_bytes_of_u32: "u32_of_bytes (bytes_of_u32 w) = w"
  unfolding bytes_of_u32_def
  apply (rule bit_word_eqI)
  apply (auto simp add: bit_simps)
  subgoal for n by (cases "24 \<le> n") auto
  done

lemma length_bytes_of_u32: "length (bytes_of_u32 w) = 4"
  by (simp add: bytes_of_u32_def)

lemma length_read_bytes: "length (read_bytes m a n) = n"
  by (induction n arbitrary: a) auto

lemma write_bytes_append:
  "write_bytes m a (xs @ ys) = write_bytes (write_bytes m a xs) (a + of_nat (length xs)) ys"
  by (induction xs arbitrary: m a) (auto simp: add.assoc)

lemma read_bytes_add:
  "read_bytes m a (n + k) = read_bytes m a n @ read_bytes m (a + of_nat n) k"
  by (induction n arbitrary: a) (auto simp: add.assoc)

lemma write_bytes_apply:
  "length bs \<le> 2 ^ 32 \<Longrightarrow>
   write_bytes m a bs x = (if unat (x - a) < length bs then bs ! unat (x - a) else m x)"
proof (induction bs arbitrary: m a)
  case Nil
  then show ?case by simp
next
  case (Cons b bs)
  have len: "length bs < 2 ^ 32" using Cons.prems by simp
  define m1 where "m1 = m(a := b)"
  have IH: "write_bytes m1 (a + 1) bs x =
      (if unat (x - (a + 1)) < length bs then bs ! unat (x - (a + 1)) else m1 x)"
    using Cons.IH [of m1 "a + 1"] len by simp
  have unf: "write_bytes m a (b # bs) x = write_bytes m1 (a + 1) bs x"
    by (simp add: m1_def)
  show ?case
  proof (cases "x = a")
    case True
    have "a - (a + 1) = (- 1 :: u32)" by simp
    then have "unat (a - (a + 1)) = 2 ^ 32 - 1"
      by (simp add: unsigned_minus_1_eq_mask mask_eq_exp_minus_1 del: diff_add_eq_diff_diff_swap)
    with len True show ?thesis unfolding unf IH by (simp add: m1_def)
  next
    case False
    then have nz: "x - a \<noteq> 0" by simp
    have "x - (a + 1) = (x - a) - 1" by simp
    then have "unat (x - (a + 1)) = unat ((x - a) - 1)" by (rule arg_cong)
    also have "\<dots> = unat (x - a) - 1" by (rule unat_minus_one [OF nz])
    finally have u: "unat (x - (a + 1)) = unat (x - a) - 1" .
    have pos: "0 < unat (x - a)" using nz by (simp add: unat_gt_0)
    show ?thesis
      unfolding unf IH u using False pos by (auto simp add: nth_Cons' m1_def)
  qed
qed

lemma read_bytes_nth:
  "k < n \<Longrightarrow> read_bytes m a n ! k = m (a + of_nat k)"
proof (induction n arbitrary: a k)
  case 0
  then show ?case by simp
next
  case (Suc n)
  then show ?case by (cases k) (auto simp add: add.assoc)
qed

lemma read_write_same:
  assumes "length bs \<le> 2 ^ 32"
  shows "read_bytes (write_bytes m a bs) a (length bs) = bs"
proof (rule nth_equalityI)
  show "length (read_bytes (write_bytes m a bs) a (length bs)) = length bs"
    by (simp add: length_read_bytes)
next
  fix i assume "i < length (read_bytes (write_bytes m a bs) a (length bs))"
  then have i: "i < length bs" by (simp add: length_read_bytes)
  with assms have "i < 2 ^ 32" by simp
  then have "unat (of_nat i :: u32) = i" by (simp add: unat_of_nat)
  with i assms show "read_bytes (write_bytes m a bs) a (length bs) ! i = bs ! i"
    by (simp add: read_bytes_nth write_bytes_apply)
qed

lemma read_write_other:
  assumes "length bs \<le> 2 ^ 32" and "\<forall>k<n. length bs \<le> unat (b + of_nat k - a)"
  shows "read_bytes (write_bytes m a bs) b n = read_bytes m b n"
proof (rule nth_equalityI)
  show "length (read_bytes (write_bytes m a bs) b n) = length (read_bytes m b n)"
    by (simp add: length_read_bytes)
next
  fix i assume "i < length (read_bytes (write_bytes m a bs) b n)"
  then have i: "i < n" by (simp add: length_read_bytes)
  with assms show "read_bytes (write_bytes m a bs) b n ! i = read_bytes m b n ! i"
    by (auto simp add: read_bytes_nth write_bytes_apply)
qed

lemma guest_elf_write_address_apply:
  "guest_elf_write_address paddr sz off (m, cookie) =
     Inr (0, (write_bytes m paddr (take sz (drop off cookie)), cookie))"
  by (simp add: guest_elf_write_address_def)

lemma guest_elf_read_address_apply:
  "guest_elf_read_address paddr sz off (m, cookie) =
     Inr (0, (m, buf_store cookie off (read_bytes m paddr sz)))"
  by (simp add: guest_elf_read_address_def)

lemma touch_chunks_unfold:
  assumes "cur < end_addr"
  shows "\<exists>next_addr. cur < next_addr \<and> next_addr \<le> end_addr \<and>
           touch_chunks base cur end_addr =
             (cur, next_addr - cur, cur - base) # touch_chunks base next_addr end_addr"
proof -
  define next_addr where "next_addr = min end_addr ((cur div PAGE_SIZE_4K + 1) * PAGE_SIZE_4K)"
  have "cur < next_addr"
    using assms div_mult_mod_eq [of cur 4096]
    by (auto simp add: next_addr_def PAGE_SIZE_4K_def min_def algebra_simps)
  moreover have "next_addr \<le> end_addr" by (simp add: next_addr_def)
  moreover have "touch_chunks base cur end_addr =
      (cur, next_addr - cur, cur - base) # touch_chunks base next_addr end_addr"
    using assms by (subst touch_chunks.simps) (simp add: Let_def next_addr_def)
  ultimately show ?thesis by blast
qed

lemma touch_run_write:
  "base \<le> cur \<Longrightarrow> end_addr - base \<le> length cookie \<Longrightarrow>
   touch_run guest_elf_write_address (touch_chunks base cur end_addr) (m, cookie) =
     Inr (0, (write_bytes m (of_nat cur) (take (end_addr - cur) (drop (cur - base) cookie)), cookie))"
proof (induction "end_addr - cur" arbitrary: cur m rule: less_induct)
  case less
  show ?case
  proof (cases "cur < end_addr")
    case False
    then show ?thesis by (simp add: touch_chunks.simps [of base cur end_addr])
  next
    case True
    from touch_chunks_unfold [OF True, of base] obtain next_addr where
      lt: "cur < next_addr" and le: "next_addr \<le> end_addr" and
      unf: "touch_chunks base cur end_addr =
              (cur, next_addr - cur, cur - base) # touch_chunks base next_addr end_addr"
      by blast
    have IH: "touch_run guest_elf_write_address (touch_chunks base next_addr end_addr) (m', cookie) =
        Inr (0, (write_bytes m' (of_nat next_addr)
                   (take (end_addr - next_addr) (drop (next_addr - base) cookie)), cookie))" for m'
      using less.hyps [of next_addr m'] less.prems lt True by simp
    have len: "length (take (next_addr - cur) (drop (cur - base) cookie)) = next_addr - cur"
      using less.prems le lt by simp
    have split: "take (end_addr - cur) (drop (cur - base) cookie) =
        take (next_addr - cur) (drop (cur - base) cookie) @
        take (end_addr - next_addr) (drop (next_addr - base) cookie)"
    proof -
      have "end_addr - cur = (next_addr - cur) + (end_addr - next_addr)" using lt le by simp
      moreover have "drop (next_addr - base) cookie = drop (next_addr - cur) (drop (cur - base) cookie)"
        using lt less.prems by simp
      ultimately show ?thesis by (simp add: take_add)
    qed
    have addr: "(of_nat cur :: u32) + of_nat (next_addr - cur) = of_nat next_addr"
      using lt by (metis le_add_diff_inverse less_imp_le of_nat_add)
    show ?thesis
      unfolding unf split
      by (simp add: guest_elf_write_address_apply IH write_bytes_append len addr del: length_take)
  qed
qed

lemma buf_store_buf_store:
  "off + length xs \<le> length c \<Longrightarrow>
   buf_store (buf_store c off xs) (off + length xs) ys = buf_store c off (xs @ ys)"
  by (simp add: buf_store_def ac_simps)

lemma touch_run_read:
  "base \<le> cur \<Longrightarrow> end_addr - base \<le> length cookie \<Longrightarrow>
   touch_run guest_elf_read_address (touch_chunks base cur end_addr) (m, cookie) =
     Inr (0, (m, if cur < end_addr
                 then buf_store cookie (cur - base) (read_bytes m (of_nat cur) (end_addr - cur))
                 else cookie))"
proof (induction "end_addr - cur" arbitrary: cur cookie rule: less_induct)
  case less
  show ?case
  proof (cases "cur < end_addr")
    case False
    then show ?thesis by (simp add: touch_chunks.simps [of base cur end_addr])
  next
    case True
    from touch_chunks_unfold [OF True, of base] obtain next_addr where
      lt: "cur < next_addr" and le: "next_addr \<le> end_addr" and
      unf: "touch_chunks base cur end_addr =
              (cur, next_addr - cur, cur - base) # touch_chunks base next_addr end_addr"
      by blast
    define c1 where "c1 = buf_store cookie (cur - base) (read_bytes m (of_nat cur) (next_addr - cur))"
    have len1: "length c1 = length cookie"
      using less.prems lt le by (simp add: c1_def buf_store_def length_read_bytes)
    have IH: "touch_run guest_elf_read_address (touch_chunks base next_addr end_addr) (m, c1) =
        Inr (0, (m, if next_addr < end_addr
                    then buf_store c1 (next_addr - base) (read_bytes m (of_nat next_addr) (end_addr - next_addr))
                    else c1))"
      using less.hyps [of next_addr c1] less.prems lt len1 True by simp
    have addr: "(of_nat cur :: u32) + of_nat (next_addr - cur) = of_nat next_addr"
      using lt by (metis le_add_diff_inverse less_imp_le of_nat_add)
    have rd: "read_bytes m (of_nat cur) (end_addr - cur) =
        read_bytes m (of_nat cur) (next_addr - cur) @ read_bytes m (of_nat next_addr) (end_addr - next_addr)"
    proof -
      have "end_addr - cur = (next_addr - cur) + (end_addr - next_addr)" using lt le by simp
      then show ?thesis by (simp add: read_bytes_add addr)
    qed
    have off: "next_addr - base = (cur - base) + length (read_bytes m (of_nat cur :: u32) (next_addr - cur))"
      using lt less.prems by (simp add: length_read_bytes)
    have fits: "(cur - base) + length (read_bytes m (of_nat cur :: u32) (next_addr - cur)) \<le> length cookie"
      using lt le less.prems by (simp add: length_read_bytes)
    have merge: "buf_store c1 (next_addr - base) ys =
        buf_store cookie (cur - base) (read_bytes m (of_nat cur) (next_addr - cur) @ ys)" for ys
      unfolding c1_def off by (rule buf_store_buf_store [OF fits])
    show ?thesis
    proof (cases "next_addr < end_addr")
      case True
      then show ?thesis
        using \<open>cur < end_addr\<close>
        by (simp add: unf guest_elf_read_address_apply c1_def [symmetric] IH merge rd)
    next
      case False
      with le have eq: "next_addr = end_addr" by simp
      have nil: "touch_chunks base end_addr end_addr = []"
        by (simp add: touch_chunks.simps [of base end_addr end_addr])
      show ?thesis
        using \<open>cur < end_addr\<close>
        by (simp add: unf guest_elf_read_address_apply eq nil)
    qed
  qed
qed

lemma touch_write:
  assumes "unat sz \<le> length cookie"
  shows "vmm_guest_vspace_touch guest_elf_write_address a sz (m, cookie) =
     Inr (0, (write_bytes m a (take (unat sz) cookie), cookie))"
  unfolding vmm_guest_vspace_touch_def
  using assms by (subst touch_run_write) simp_all

lemma touch_read_4:
  "vmm_guest_vspace_touch guest_elf_read_address a 4 (m, replicate 4 0) =
     Inr (0, (m, read_bytes m a 4))"
  unfolding vmm_guest_vspace_touch_def
  by (subst touch_run_read) (simp_all add: buf_store_def length_read_bytes)

lemma relocate_word_eq:
  "relocate_word img load_addr delta m vaddr =
     (let guest_paddr = vaddr - link_vaddr img + (load_addr + delta)
      in Inr (write_bytes m guest_paddr (bytes_of_u32 (u32_of_bytes (read_bytes m guest_paddr 4) + delta))))"
  by (simp add: relocate_word_def Let_def touch_read_4 touch_write length_bytes_of_u32)

lemma make_guest_cmd_line_continued_eq: "make_guest_cmd_line_continued = guest_elf_write_address"
  by (intro ext) (simp add: make_guest_cmd_line_continued_def guest_elf_write_address_def)


section \<open>Properties of the relocation engine\<close>

lemma relocate_loop_terminator_first:
  assumes "link_vaddr img = 0x100000"
  shows "relocate_loop relocs_terminator_first img load_addr delta m 0 =
     (let m1 = write_bytes m (0x20 + (load_addr + delta))
                 (bytes_of_u32 (u32_of_bytes (read_bytes m (0x20 + (load_addr + delta)) 4) + delta))
      in Inr (2, write_bytes m1 (0x10 + (load_addr + delta))
                 (bytes_of_u32 (u32_of_bytes (read_bytes m1 (0x10 + (load_addr + delta)) 4) + delta))))"
proof -
  have rd: "fread_at relocs_terminator_first 8 4 = Some (bytes_of_u32 0x00100020)"
    "fread_at relocs_terminator_first 4 4 = Some (bytes_of_u32 0x00100010)"
    "fread_at relocs_terminator_first 0 4 = Some (bytes_of_u32 0)"
    "length relocs_terminator_first = 12"
    by (simp_all add: relocs_terminator_first_def fread_at_def length_bytes_of_u32)
  show ?thesis
    apply (subst relocate_loop.simps)
    apply (simp add: rd u32_of_bytes_of_u32 relocate_word_eq Let_def assms)
    apply (subst relocate_loop.simps)
    apply (simp add: rd u32_of_bytes_of_u32 relocate_word_eq Let_def assms)
    apply (subst relocate_loop.simps)
    apply (simp add: rd u32_of_bytes_of_u32 relocate_word_eq Let_def assms)
    done
qed

lemma relocate_loop_zero_last:
  assumes "4 \<le> length file" "length file < 2 ^ 32" "drop (length file - 4) file = bytes_of_u32 0"
  shows "relocate_loop file img load_addr delta m 0 = Inr (0, m)"
proof -
  have "unat (of_nat (length file) - 4 :: u32) = length file - 4"
    using assms(1,2) by (simp add: unat_sub word_le_nat_alt unat_of_nat)
  moreover have "take 4 (drop (length file - 4) file) = bytes_of_u32 0"
    using assms(3) by (simp add: length_bytes_of_u32)
  ultimately have "fread_at file (unat (of_nat (length file) - 4 :: u32)) 4 = Some (bytes_of_u32 0)"
    using assms(1) by (simp add: fread_at_def length_bytes_of_u32)
  then show ?thesis
    by (subst relocate_loop.simps) (simp add: Let_def u32_of_bytes_of_u32)
qed

lemma less_4_cases: "k < (4::nat) \<longleftrightarrow> k = 0 \<or> k = 1 \<or> k = 2 \<or> k = 3"
  by auto

lemma read_bytes_4: "read_bytes m a 4 = [m a, m (a + 1), m (a + 2), m (a + 3)]"
  by (simp add: numeral_eq_Suc add.assoc)

text \<open>
  Claim C6. When \<open>relocation_offset\<close> is zero, \<^verbatim>\<open>vmm_plat_guest_elf_relocate\<close> returns at
  once: the result is the VM it was given, with no field of the guest image and no byte of
  guest memory changed, whatever the file system holds under the file name (the file is
  never opened; were it opened and missing, the run would end in a panic).
\<close>

theorem relocate_noop:
  "relocation_offset (guest_image v) = 0 \<Longrightarrow> vmm_plat_guest_elf_relocate X v relocs_filename = Inr v"
  by (simp add: vmm_plat_guest_elf_relocate_def)

text \<open>The no-op at a concrete VM whose relocation file does not even exist.\<close>

theorem relocate_noop_witness:
  "relocation_offset (guest_image (example_vm\<lparr>guest_image := example_image\<lparr>relocation_offset := 0\<rparr>\<rparr>)) = 0
   \<and> fopen (example_ext []) ''relocs'' = None
   \<and> vmm_plat_guest_elf_relocate (example_ext []) (example_vm\<lparr>guest_image := example_image\<lparr>relocation_offset := 0\<rparr>\<rparr>) ''relocs''
      = Inr (example_vm\<lparr>guest_image := example_image\<lparr>relocation_offset := 0\<rparr>\<rparr>)"
  using relocate_noop [of "example_vm\<lparr>guest_image := example_image\<lparr>relocation_offset := 0\<rparr>\<rparr>" "example_ext []" "''relocs''"]
  by (simp add: example_ext_def)

text \<open>
  Claim C1 (the code at the failing input). The relocation file of eight zero bytes is the
  documented layout with an empty 64-bit list and an empty 32-bit list. The backward scan
  reads the zero terminator first and applies no entry, yet \<open>num_relocations\<close>, computed
  as \<open>relocs_size / 4 - 1\<close>, is 1, so the check for "no relocations" does not fire and the
  function returns normally although relocation was required.
\<close>

theorem relocate_two_terminators_returns:
  "relocate_loop relocs_two_terminators img load_addr delta m 0 = Inr (0, m)
   \<and> relocation_offset (guest_image example_vm) \<noteq> 0
   \<and> vmm_plat_guest_elf_relocate (example_ext [(''relocs'', relocs_two_terminators)]) example_vm ''relocs''
       = Inr example_vm"
proof -
  have l: "relocate_loop relocs_two_terminators img load_addr delta m 0 = Inr (0, m)" for img load_addr delta m
    by (rule relocate_loop_zero_last) (simp_all add: relocs_two_terminators_def length_bytes_of_u32)
  have len: "length relocs_two_terminators = 8"
    by (simp add: relocs_two_terminators_def length_bytes_of_u32)
  show ?thesis
    by (simp add: l vmm_plat_guest_elf_relocate_def example_ext_def example_vm_def example_image_def len)
qed

text \<open>
  Claim C2, as amended. With \<open>link_vaddr = 0x00100000\<close>, \<open>load_paddr = 0x00200000\<close>,
  \<open>relocation_offset = 0x00100000\<close> (and \<open>link_paddr\<close> the load address minus the offset,
  as the loader leaves it), a relocation file whose words are, in file order,
  \<open>0\<close>, \<open>0x00100010\<close>, \<open>0x00100020\<close> makes the engine add \<open>0x00100000\<close> to the 32-bit
  words at guest-physical \<open>0x00200010\<close> and \<open>0x00200020\<close>; the loop applies exactly
  2 entries. The zero terminator precedes the entries, because the file is scanned from
  its end.
\<close>

theorem relocate_example_terminator_first:
  assumes "link_vaddr (guest_image v) = 0x00100000"
    and "load_paddr (guest_image v) = 0x00200000"
    and "relocation_offset (guest_image v) = 0x00100000"
    and "link_paddr (guest_image v) + relocation_offset (guest_image v) = load_paddr (guest_image v)"
    and "fopen X relocs_filename = Some relocs_terminator_first"
  shows "\<exists>v'. vmm_plat_guest_elf_relocate X v relocs_filename = Inr v'
           \<and> relocate_loop relocs_terminator_first (guest_image v) (link_paddr (guest_image v))
                (relocation_offset (guest_image v)) (vm_vspace (mem v)) 0 = Inr (2, vm_vspace (mem v'))
           \<and> u32_of_bytes (read_bytes (vm_vspace (mem v')) 0x00200010 4) =
               u32_of_bytes (read_bytes (vm_vspace (mem v)) 0x00200010 4) + 0x00100000
           \<and> u32_of_bytes (read_bytes (vm_vspace (mem v')) 0x00200020 4) =
               u32_of_bytes (read_bytes (vm_vspace (mem v)) 0x00200020 4) + 0x00100000"
proof -
  define m where "m = vm_vspace (mem v)"
  define m1 where "m1 = write_bytes m 0x200020 (bytes_of_u32 (u32_of_bytes (read_bytes m 0x200020 4) + 0x100000))"
  define m2 where "m2 = write_bytes m1 0x200010 (bytes_of_u32 (u32_of_bytes (read_bytes m1 0x200010 4) + 0x100000))"
  have sum: "link_paddr (guest_image v) + 0x100000 = 0x200000"
    using assms(2,3,4) by simp
  have loop: "relocate_loop relocs_terminator_first (guest_image v) (link_paddr (guest_image v)) 0x100000 m 0
      = Inr (2, m2)"
    by (simp add: relocate_loop_terminator_first [OF assms(1)] sum Let_def m2_def m1_def)
  have len: "length relocs_terminator_first = 12"
    by (simp add: relocs_terminator_first_def length_bytes_of_u32)
  have run: "vmm_plat_guest_elf_relocate X v relocs_filename = Inr (v\<lparr>mem := (mem v)\<lparr>vm_vspace := m2\<rparr>\<rparr>)"
    using loop by (simp add: vmm_plat_guest_elf_relocate_def assms(3,5) Let_def m_def len)
  have d1: "read_bytes (write_bytes mm 0x200020 (bytes_of_u32 w)) 0x200010 4 = read_bytes mm 0x200010 4" for w mm
    by (rule read_write_other) (auto simp add: length_bytes_of_u32 less_4_cases)
  have d2: "read_bytes (write_bytes mm 0x200010 (bytes_of_u32 w)) 0x200020 4 = read_bytes mm 0x200020 4" for w mm
    by (rule read_write_other) (auto simp add: length_bytes_of_u32 less_4_cases)
  have same: "read_bytes (write_bytes mm a (bytes_of_u32 w)) a 4 = bytes_of_u32 w" for w mm a
    using read_write_same [of "bytes_of_u32 w" mm a] by (simp add: length_bytes_of_u32)
  have w1: "u32_of_bytes (read_bytes m2 0x200010 4) = u32_of_bytes (read_bytes m 0x200010 4) + 0x100000"
    by (simp add: m2_def m1_def same d1 u32_of_bytes_of_u32)
  have w2: "u32_of_bytes (read_bytes m2 0x200020 4) = u32_of_bytes (read_bytes m 0x200020 4) + 0x100000"
    by (simp add: m2_def m1_def same d2 u32_of_bytes_of_u32)
  show ?thesis
    using run loop w1 w2 by (simp add: assms(3) m_def)
qed

text \<open>The amended example run on zeroed guest memory: both words become \<open>0x00100000\<close>.\<close>

theorem relocate_example_terminator_first_witness:
  "link_vaddr (guest_image example_vm) = 0x00100000
   \<and> load_paddr (guest_image example_vm) = 0x00200000
   \<and> relocation_offset (guest_image example_vm) = 0x00100000
   \<and> link_paddr (guest_image example_vm) + relocation_offset (guest_image example_vm)
        = load_paddr (guest_image example_vm)
   \<and> fopen (example_ext [(''relocs'', relocs_terminator_first)]) ''relocs'' = Some relocs_terminator_first
   \<and> (\<exists>v'. vmm_plat_guest_elf_relocate (example_ext [(''relocs'', relocs_terminator_first)]) example_vm ''relocs''
              = Inr v'
         \<and> u32_of_bytes (read_bytes (vm_vspace (mem v')) 0x00200010 4) = 0x00100000
         \<and> u32_of_bytes (read_bytes (vm_vspace (mem v')) 0x00200020 4) = 0x00100000)"
proof -
  have h: "link_vaddr (guest_image example_vm) = 0x00100000"
    "load_paddr (guest_image example_vm) = 0x00200000"
    "relocation_offset (guest_image example_vm) = 0x00100000"
    "link_paddr (guest_image example_vm) + relocation_offset (guest_image example_vm)
        = load_paddr (guest_image example_vm)"
    "fopen (example_ext [(''relocs'', relocs_terminator_first)]) ''relocs'' = Some relocs_terminator_first"
    by (simp_all add: example_vm_def example_image_def example_ext_def)
  have z: "u32_of_bytes (read_bytes (vm_vspace (mem example_vm)) a 4) = 0" for a
    by (simp add: example_vm_def zero_memory_def read_bytes_4)
  show ?thesis
    using relocate_example_terminator_first [OF h] h by (auto simp add: z)
qed

text \<open>
  Claim C2 as stated fails. With the words in the file order \<open>0x00100010\<close>, \<open>0x00100020\<close>,
  \<open>0\<close> the scan meets the zero word first: the VM is returned unchanged, the loop has
  applied 0 entries, and the word at \<open>0x00200010\<close> has not grown by \<open>0x00100000\<close>.
\<close>

theorem relocate_example_terminator_last:
  "link_vaddr (guest_image example_vm) = 0x00100000
   \<and> load_paddr (guest_image example_vm) = 0x00200000
   \<and> relocation_offset (guest_image example_vm) = 0x00100000
   \<and> vmm_plat_guest_elf_relocate (example_ext [(''relocs'', relocs_terminator_last)]) example_vm ''relocs''
        = Inr example_vm
   \<and> relocate_loop relocs_terminator_last (guest_image example_vm) (link_paddr (guest_image example_vm))
        (relocation_offset (guest_image example_vm)) (vm_vspace (mem example_vm)) 0
        = Inr (0, vm_vspace (mem example_vm))
   \<and> u32_of_bytes (read_bytes (vm_vspace (mem example_vm)) 0x00200010 4) + 0x00100000
        \<noteq> u32_of_bytes (read_bytes (vm_vspace (mem example_vm)) 0x00200010 4)"
proof -
  have l: "relocate_loop relocs_terminator_last img load_addr delta m 0 = Inr (0, m)" for img load_addr delta m
    by (rule relocate_loop_zero_last) (simp_all add: relocs_terminator_last_def length_bytes_of_u32)
  have len: "length relocs_terminator_last = 12"
    by (simp add: relocs_terminator_last_def length_bytes_of_u32)
  show ?thesis
    by (simp add: l vmm_plat_guest_elf_relocate_def example_ext_def example_vm_def example_image_def len)
qed

section \<open>Missing input files\<close>

text \<open>
  Claim C7, as amended. When the file cannot be opened, \<^verbatim>\<open>vmm_load_guest_elf\<close> and
  \<^verbatim>\<open>vmm_guest_load_boot_module\<close> report the error by returning \<open>-1\<close> and leave the VM
  as it was; the host process goes on. \<^verbatim>\<open>vmm_plat_guest_elf_relocate\<close>, which returns
  no value, calls \<^verbatim>\<open>panic\<close> when relocation is required and its file is missing: the
  host process is stopped.
\<close>

theorem missing_file_outcomes:
  assumes "fopen X name = None"
  shows "vmm_load_guest_elf X v name alignment = Inr (- 1, v)
       \<and> vmm_guest_load_boot_module X v name = Inr (- 1, v)
       \<and> (relocation_offset (guest_image v) \<noteq> 0 \<longrightarrow>
            vmm_plat_guest_elf_relocate X v name =
              Inl (Panic ''Relocation required but relocation data file not found.''))"
  using assms
  by (simp add: vmm_load_guest_elf_def vmm_guest_load_boot_module_def vmm_plat_guest_elf_relocate_def Let_def)

text \<open>The three outcomes on a host file system without any file.\<close>

theorem missing_file_outcomes_witness:
  "fopen (example_ext []) ''linux'' = None
   \<and> relocation_offset (guest_image example_vm) \<noteq> 0
   \<and> vmm_load_guest_elf (example_ext []) example_vm ''linux'' 0x1000 = Inr (- 1, example_vm)
   \<and> vmm_guest_load_boot_module (example_ext []) example_vm ''linux'' = Inr (- 1, example_vm)
   \<and> vmm_plat_guest_elf_relocate (example_ext []) example_vm ''linux'' =
         Inl (Panic ''Relocation required but relocation data file not found.'')"
proof -
  have h: "fopen (example_ext []) ''linux'' = None"
    by (simp add: example_ext_def)
  have nz: "relocation_offset (guest_image example_vm) \<noteq> 0"
    by (simp add: example_vm_def example_image_def)
  show ?thesis
    using missing_file_outcomes [OF h, of example_vm "0x1000"] h nz by simp
qed

text \<open>
  Claim C7 as stated fails for the relocation table: with a nonzero relocation offset and
  no relocation file, the run ends in \<^verbatim>\<open>panic\<close>, not in a reported error.
\<close>

theorem relocate_missing_file_panics:
  "fopen (example_ext []) ''relocs'' = None
   \<and> relocation_offset (guest_image example_vm) \<noteq> 0
   \<and> vmm_plat_guest_elf_relocate (example_ext []) example_vm ''relocs'' =
         Inl (Panic ''Relocation required but relocation data file not found.'')"
  by (simp add: vmm_plat_guest_elf_relocate_def example_ext_def example_vm_def example_image_def)

section \<open>The guest command line\<close>

lemma take_strlen_Suc:
  "0 \<in> set buf \<Longrightarrow> take (Suc (strlen buf)) buf = takeWhile (\<lambda>c. c \<noteq> 0) buf @ [0]"
  unfolding strlen_def by (induction buf) auto

lemma strlen_less_length: "0 \<in> set buf \<Longrightarrow> strlen buf < length buf"
  unfolding strlen_def by (induction buf) auto

text \<open>
  Claim C8. For a NUL-terminated command line (with its terminator it fits the 32-bit
  address space) and a successful allocation, \<^verbatim>\<open>make_guest_cmd_line\<close> asks the Region
  Tracker for exactly \<open>strlen + 1\<close> bytes, returns 0, records the allocated address and
  the length \<open>strlen\<close> in the guest image, and leaves at that address the bytes of the
  string followed by one zero byte.
\<close>

theorem make_guest_cmd_line_writes:
  assumes nul: "0 \<in> set cmdline"
    and len: "strlen cmdline + 1 < 2 ^ 32"
    and alloc: "guest_ram_allocate X (ram_regions (mem v)) (of_nat (strlen cmdline) + 1) = (cmd_addr, regions)"
    and ok: "cmd_addr \<noteq> 0"
  shows "\<exists>v'. make_guest_cmd_line X v cmdline = Inr (0, v')
           \<and> ram_regions (mem v') = regions
           \<and> cmd_line (guest_image v') = cmd_addr
           \<and> unat (cmd_line_len (guest_image v')) = strlen cmdline
           \<and> read_bytes (vm_vspace (mem v')) cmd_addr (strlen cmdline + 1) =
                takeWhile (\<lambda>c. c \<noteq> 0) cmdline @ [0]"
proof -
  define n where "n = strlen cmdline"
  have un: "unat (of_nat n :: u32) = n"
    using len by (simp add: n_def unat_of_nat)
  have un1: "unat (of_nat n + 1 :: u32) = n + 1"
  proof -
    have "unat (of_nat n + 1 :: u32) = unat (of_nat (Suc n) :: u32)" by (simp add: add.commute)
    also have "\<dots> = Suc n" unfolding unat_of_nat using len by (simp add: n_def)
    finally show ?thesis by simp
  qed
  have fits: "unat (of_nat n + 1 :: u32) \<le> length cmdline"
    unfolding un1 using strlen_less_length [OF nul] by (simp add: n_def)
  define m' where "m' = write_bytes (vm_vspace (mem v)) cmd_addr (takeWhile (\<lambda>c. c \<noteq> 0) cmdline @ [0])"
  have touch: "vmm_guest_vspace_touch make_guest_cmd_line_continued cmd_addr (of_nat n + 1)
                 (vm_vspace (mem v), cmdline) = Inr (0, (m', cmdline))"
  proof -
    have tk: "take (unat (of_nat n + 1 :: u32)) cmdline = takeWhile (\<lambda>c. c \<noteq> 0) cmdline @ [0]"
      unfolding un1 using take_strlen_Suc [OF nul] by (simp add: n_def)
    show ?thesis
      unfolding make_guest_cmd_line_continued_eq touch_write [OF fits] tk m'_def ..
  qed
  have lenw: "length (takeWhile (\<lambda>c. c \<noteq> 0) cmdline @ [0]) = n + 1"
    by (simp add: n_def strlen_def)
  have rd: "read_bytes m' cmd_addr (n + 1) = takeWhile (\<lambda>c. c \<noteq> 0) cmdline @ [0]"
    unfolding m'_def
    using read_write_same [of "takeWhile (\<lambda>c. c \<noteq> 0) cmdline @ [0]" "vm_vspace (mem v)" cmd_addr] len
    by (simp only: lenw) (simp add: n_def)
  show ?thesis
    using alloc ok touch rd un
    by (simp add: make_guest_cmd_line_def Let_def n_def [symmetric])
qed

text \<open>The example of the specification: \<open>console=ttyS0\<close> has length 13; 14 bytes are
  allocated and written, the string and a trailing zero byte.\<close>

lemma strlen_console: "strlen (c_string ''console=ttyS0'') = 13"
  by (simp add: c_string_def strlen_def)

theorem make_guest_cmd_line_console:
  "0 \<in> set (c_string ''console=ttyS0'')
   \<and> strlen (c_string ''console=ttyS0'') = 13
   \<and> guest_ram_allocate (example_ext []) (ram_regions (mem example_vm)) 14 = (0x300000, ram_regions (mem example_vm))
   \<and> (\<exists>v'. make_guest_cmd_line (example_ext []) example_vm (c_string ''console=ttyS0'') = Inr (0, v')
         \<and> cmd_line (guest_image v') = 0x300000
         \<and> unat (cmd_line_len (guest_image v')) = 13
         \<and> read_bytes (vm_vspace (mem v')) 0x300000 14 = c_string ''console=ttyS0'')"
proof -
  have nul: "0 \<in> set (c_string ''console=ttyS0'')"
    by (simp add: c_string_def)
  have len: "strlen (c_string ''console=ttyS0'') + 1 < 2 ^ 32"
    by (simp add: strlen_console)
  have alloc: "guest_ram_allocate (example_ext []) (ram_regions (mem example_vm))
                 (of_nat (strlen (c_string ''console=ttyS0'')) + 1) = (0x300000, ram_regions (mem example_vm))"
    by (simp add: example_ext_def strlen_console)
  have ok: "(0x300000 :: u32) \<noteq> 0" by simp
  have tw: "takeWhile (\<lambda>c. c \<noteq> 0) (c_string ''console=ttyS0'') @ [0] = c_string ''console=ttyS0''"
    by (simp add: c_string_def)
  show ?thesis
    using make_guest_cmd_line_writes [OF nul len alloc ok] nul alloc
    by (simp add: strlen_console tw) blast
qed

section \<open>The e820 memory map: loop invariant\<close>

lemma bnd_simps [simp]:
  "bnd (Inl a) f = Inl a" "bnd (Inr x) f = f x"
  by (simp_all add: bnd_def)

lemma assert_that_simps [simp]:
  "assert_that True msg = Inr ()" "assert_that False msg = Inl (AssertFailed msg)"
  by (simp_all add: assert_that_def)

lemma unat_ucast_u32_u64 [simp]: "unat (ucast (x :: u32) :: u64) = unat x"
  by (simp add: unsigned_ucast_eq take_bit_nat_eq_self_iff) (rule less_trans [OF unsigned_less], simp)

lemma unat_u32_less: "unat (x :: u32) < 4294967296"
  using unsigned_less [of x] by simp

lemma u64_add_eq_iff:
  assumes "unat a + unat b < 2 ^ 64"
  shows "(a + b = (c :: u64)) \<longleftrightarrow> unat a + unat b = unat c"
proof -
  have "unat (a + b) = unat a + unat b"
    using assms unat_add_lem [of a b] by simp
  then show ?thesis by (metis word_unat_eq_iff)
qed

lemma u64_unat_add:
  "unat a + unat b < 2 ^ 64 \<Longrightarrow> unat (a + b :: u64) = unat a + unat b"
  using unat_add_lem [of a b] by simp

lemma u64_unat_sub:
  "unat b \<le> unat a \<Longrightarrow> unat (a - b :: u64) = unat a - unat b"
  by (simp add: unat_sub word_le_nat_alt)

lemma take_Suc_update_last:
  "n < length e \<Longrightarrow> take (Suc n) (e[n := x]) = take n e @ [x]"
  by (simp add: take_Suc_conv_app_nth)

lemma take_update_two:
  assumes "Suc (Suc n) < length e"
  shows "take (Suc (Suc (Suc n))) (e[Suc n := a, Suc (Suc n) := b]) = take (Suc n) e @ [a, b]"
proof -
  have "take (Suc (Suc (Suc n))) (e[Suc n := a, Suc (Suc n) := b]) =
        take (Suc (Suc n)) (e[Suc n := a, Suc (Suc n) := b]) @ [b]"
    using assms by (simp add: take_Suc_conv_app_nth)
  also have "take (Suc (Suc n)) (e[Suc n := a, Suc (Suc n) := b]) = take (Suc (Suc n)) (e[Suc n := a])"
    by simp
  also have "\<dots> = take (Suc n) e @ [a]"
    using assms by (simp add: take_Suc_conv_app_nth)
  finally show ?thesis by simp
qed

lemma abutting_snoc:
  "abutting (xs @ [y]) \<longleftrightarrow>
     abutting xs \<and> (xs \<noteq> [] \<longrightarrow> unat (e820_addr (last xs)) + unat (e820_size (last xs)) = unat (e820_addr y))"
  by (induction xs rule: abutting.induct) auto

lemma abutting_nth:
  "abutting xs \<Longrightarrow> Suc i < length xs \<Longrightarrow>
   unat (e820_addr (xs ! i)) + unat (e820_size (xs ! i)) = unat (e820_addr (xs ! Suc i))"
proof (induction xs arbitrary: i rule: abutting.induct)
  case (1 x y es)
  then show ?case by (cases i) auto
qed auto

lemma ram_ranges_append: "ram_ranges (xs @ ys) = ram_ranges xs \<union> ram_ranges ys"
  by (auto simp add: ram_ranges_def)

lemma ram_ranges_single:
  "ram_ranges [x] = (if e820_type x = E820_RAM then entry_range x else {})"
  by (auto simp add: ram_ranges_def)

lemma ram_ranges_Nil [simp]: "ram_ranges [] = {}"
  by (simp add: ram_ranges_def)


lemma e820entry_override:
  "x\<lparr>e820_addr := a, e820_type := t, e820_size := s\<rparr> = \<lparr>e820_addr = a, e820_size = s, e820_type = t\<rparr>"
  by (cases x) simp

lemma step_contiguous:
  assumes "e820_addr (e ! n) + e820_size (e ! n) = ucast (region_start r)"
  shows "e820_region_step (e, n) r =
           Inr (e[n := (e ! n)\<lparr>e820_size := ucast (region_start r) - e820_addr (e ! n) + ucast (region_size r)\<rparr>], n)"
  by (simp add: e820_region_step_def Let_def assms)

lemma step_gap:
  assumes "e820_addr (e ! n) + e820_size (e ! n) \<noteq> ucast (region_start r)"
    and "e820_size (e ! n) \<noteq> 0"
    and "length e = E820MAX"
  shows "e820_region_step (e, n) r =
           (if n + 2 < E820MAX then
              Inr (e[Suc n := \<lparr>e820_addr = e820_addr (e ! n) + e820_size (e ! n),
                               e820_size = ucast (region_start r) - (e820_addr (e ! n) + e820_size (e ! n)),
                               e820_type = E820_RESERVED\<rparr>,
                     Suc (Suc n) := \<lparr>e820_addr = ucast (region_start r),
                                     e820_size = ucast (region_size r),
                                     e820_type = E820_RAM\<rparr>], n + 2)
            else Inl (AssertFailed ''entry < E820MAX''))"
  using assms
  by (cases "Suc n < E820MAX") (auto simp add: e820_region_step_def Let_def e820entry_override)


lemma E820_types_distinct [simp]: "E820_RESERVED \<noteq> E820_RAM"
  by (simp add: E820_RESERVED_def E820_RAM_def)

lemma step_contiguous_ok:
  assumes ok: "e820_prefix_ok (take (Suc n) e) c"
    and n: "n < length e"
    and eq: "c = unat (region_start r)"
    and sz: "region_size r \<noteq> 0"
  shows "\<exists>e'. e820_region_step (e, n) r = Inr (e', n) \<and> length e' = length e \<and>
           e820_prefix_ok (take (Suc n) e') (unat (region_start r) + unat (region_size r)) \<and>
           ram_ranges (take (Suc n) e') = ram_ranges (take (Suc n) e) \<union> region_range r"
proof -
  define x where "x = e ! n"
  define s where "s = unat (region_start r)"
  define z where "z = unat (region_size r)"
  have P: "take (Suc n) e = take n e @ [x]"
    using n by (simp add: take_Suc_conv_app_nth x_def)
  have s32: "s < 2 ^ 32" and z32: "z < 2 ^ 32" and zpos: "0 < z"
    using sz by (simp_all add: s_def z_def unat_u32_less unat_gt_0)
  have hi: "unat (e820_addr x) + unat (e820_size x) = s"
    and ty: "e820_type x = E820_RAM"
    and hd0: "e820_addr (hd (take n e @ [x])) = 0"
    and ab: "abutting (take n e @ [x])"
    and all: "list_all (\<lambda>y. e820_size y \<noteq> 0 \<and> unat (e820_addr y) + unat (e820_size y) \<le> s) (take n e)"
    using ok unfolding P e820_prefix_ok_def eq s_def by simp_all
  have weq: "e820_addr x + e820_size x = ucast (region_start r)"
    using hi s32 by (subst u64_add_eq_iff) (simp_all add: s_def)
  define x' where "x' = x\<lparr>e820_size := ucast (region_start r) - e820_addr x + ucast (region_size r)\<rparr>"
  define e' where "e' = e[n := x']"
  have run: "e820_region_step (e, n) r = Inr (e', n)"
    using step_contiguous [of e n r] weq by (simp add: x_def e'_def x'_def)
  have sub: "unat (ucast (region_start r) - e820_addr x :: u64) = s - unat (e820_addr x)"
    using hi by (subst u64_unat_sub) (simp_all add: s_def)
  have size': "unat (e820_size x') = s - unat (e820_addr x) + z"
  proof -
    have "unat (ucast (region_start r) - e820_addr x + ucast (region_size r) :: u64) =
          unat (ucast (region_start r) - e820_addr x :: u64) + unat (ucast (region_size r) :: u64)"
      using s32 z32 by (subst u64_unat_add) (simp_all add: sub z_def)
    then show ?thesis by (simp add: x'_def sub z_def)
  qed
  have addr': "e820_addr x' = e820_addr x" and ty': "e820_type x' = E820_RAM"
    by (simp_all add: x'_def ty)
  have hi': "unat (e820_addr x') + unat (e820_size x') = s + z"
    using hi by (simp add: size' addr')
  have nz': "e820_size x' \<noteq> 0"
    using size' zpos by (metis add_is_0 less_numeral_extra(3) unat_eq_zero unsigned_0)
  have P': "take (Suc n) e' = take n e @ [x']"
    using n by (simp add: e'_def take_Suc_update_last)
  have hd': "e820_addr (hd (take n e @ [x'])) = 0"
    using hd0 by (cases "take n e") (auto simp add: addr')
  have ab': "abutting (take n e @ [x'])"
    using ab by (simp add: abutting_snoc addr')
  have all': "list_all (\<lambda>y. e820_size y \<noteq> 0 \<and> unat (e820_addr y) + unat (e820_size y) \<le> s + z) (take n e)"
    using all by (auto simp add: list_all_iff)
  have ok': "e820_prefix_ok (take (Suc n) e') (s + z)"
    unfolding P' e820_prefix_ok_def using hd' ab' all' hi' nz' ty' by simp
  have rng: "entry_range x' = entry_range x \<union> region_range r"
    using hi hi' by (auto simp add: entry_range_def region_range_def addr' s_def z_def)
  have ram: "ram_ranges (take (Suc n) e') = ram_ranges (take (Suc n) e) \<union> region_range r"
    unfolding P P' by (auto simp add: ram_ranges_append ram_ranges_single ty ty' rng)
  show ?thesis
    using run ok' ram by (auto simp add: e'_def s_def z_def)
qed


lemma step_gap_ok:
  assumes ok: "e820_prefix_ok (take (Suc n) e) c"
    and len: "length e = E820MAX"
    and n: "n < E820MAX"
    and lt: "c < unat (region_start r)"
    and sz: "region_size r \<noteq> 0"
  shows "if n + 2 < E820MAX then
           \<exists>e'. e820_region_step (e, n) r = Inr (e', n + 2) \<and> length e' = length e \<and>
             e820_prefix_ok (take (Suc (n + 2)) e') (unat (region_start r) + unat (region_size r)) \<and>
             ram_ranges (take (Suc (n + 2)) e') = ram_ranges (take (Suc n) e) \<union> region_range r
         else e820_region_step (e, n) r = Inl (AssertFailed ''entry < E820MAX'')"
proof -
  define x where "x = e ! n"
  define s where "s = unat (region_start r)"
  define z where "z = unat (region_size r)"
  have P: "take (Suc n) e = take n e @ [x]"
    using n len by (simp add: take_Suc_conv_app_nth x_def)
  have s32: "s < 4294967296" and z32: "z < 4294967296" and zpos: "0 < z"
    using sz by (simp_all add: s_def z_def unat_u32_less unat_gt_0)
  have hi: "unat (e820_addr x) + unat (e820_size x) = c"
    and nz: "e820_size x \<noteq> 0"
    and hd0: "e820_addr (hd (take (Suc n) e)) = 0"
    and ab: "abutting (take (Suc n) e)"
    and all: "list_all (\<lambda>y. e820_size y \<noteq> 0 \<and> unat (e820_addr y) + unat (e820_size y) \<le> c) (take (Suc n) e)"
    and ne: "take (Suc n) e \<noteq> []"
    and lastP: "last (take (Suc n) e) = x"
    using ok unfolding e820_prefix_ok_def by (simp_all add: P)
  have usum: "unat (e820_addr x + e820_size x) = c"
    using hi lt s32 by (subst u64_unat_add) (simp_all add: s_def)
  have wne: "e820_addr x + e820_size x \<noteq> ucast (region_start r)"
  proof
    assume "e820_addr x + e820_size x = ucast (region_start r)"
    then have "unat (e820_addr x + e820_size x) = s" by (simp add: s_def)
    with usum lt show False by (simp add: s_def)
  qed
  define pad where "pad = \<lparr>e820_addr = e820_addr x + e820_size x,
                            e820_size = ucast (region_start r) - (e820_addr x + e820_size x),
                            e820_type = E820_RESERVED\<rparr>"
  define ram where "ram = \<lparr>e820_addr = ucast (region_start r), e820_size = ucast (region_size r),
                            e820_type = E820_RAM\<rparr>"
  have run: "e820_region_step (e, n) r =
      (if n + 2 < E820MAX then Inr (e[Suc n := pad, Suc (Suc n) := ram], n + 2)
       else Inl (AssertFailed ''entry < E820MAX''))"
    using step_gap [of e n r] wne nz len by (simp add: x_def pad_def ram_def)
  show ?thesis
  proof (cases "n + 2 < E820MAX")
    case False
    then show ?thesis using run by simp
  next
    case True
    define e' where "e' = e[Suc n := pad, Suc (Suc n) := ram]"
    have P': "take (Suc (n + 2)) e' = take (Suc n) e @ [pad, ram]"
      using True len by (simp add: e'_def take_update_two)
    have pad_lo: "unat (e820_addr pad) = c"
      by (simp add: pad_def usum)
    have pad_sz: "unat (e820_size pad) = s - c"
      using lt by (simp add: pad_def u64_unat_sub usum s_def)
    have pad_nz: "e820_size pad \<noteq> 0"
      using pad_sz lt by (metis s_def unat_eq_zero unsigned_0 zero_less_diff less_numeral_extra(3))
    have ram_lo: "unat (e820_addr ram) = s" and ram_sz: "unat (e820_size ram) = z"
      and ram_ty: "e820_type ram = E820_RAM" and pad_ty: "e820_type pad = E820_RESERVED"
      by (simp_all add: ram_def pad_def s_def z_def)
    have ram_nz: "e820_size ram \<noteq> 0"
      using ram_sz zpos by (metis unat_eq_zero unsigned_0 less_numeral_extra(3))
    have hd': "e820_addr (hd (take (Suc n) e @ [pad, ram])) = 0"
      using hd0 ne by simp
    have ab': "abutting (take (Suc n) e @ [pad, ram])"
    proof -
      have "abutting (take (Suc n) e @ [pad])"
        using ab ne hi by (simp add: abutting_snoc lastP pad_lo)
      then have "abutting ((take (Suc n) e @ [pad]) @ [ram])"
        using pad_lo pad_sz lt by (subst abutting_snoc) (simp add: ram_lo s_def)
      then show ?thesis by simp
    qed
    have all': "list_all (\<lambda>y. e820_size y \<noteq> 0 \<and> unat (e820_addr y) + unat (e820_size y) \<le> s + z)
                  (take (Suc n) e @ [pad, ram])"
      using all lt pad_nz ram_nz
      by (auto simp add: list_all_iff pad_lo pad_sz ram_lo ram_sz s_def)
    have ok': "e820_prefix_ok (take (Suc (n + 2)) e') (s + z)"
      unfolding P' e820_prefix_ok_def using hd' ab' all' by (simp add: ram_lo ram_sz ram_ty)
    have ram': "ram_ranges (take (Suc (n + 2)) e') = ram_ranges (take (Suc n) e) \<union> region_range r"
      unfolding P'
      by (simp add: ram_ranges_append [of _ "[pad, ram]"] ram_ranges_append [of "[pad]" "[ram]", simplified]
            ram_ranges_single pad_ty ram_ty)
         (simp add: entry_range_def region_range_def ram_lo ram_sz s_def z_def)
    show ?thesis
      using True run ok' ram' by (auto simp add: e'_def s_def z_def)
  qed
qed


lemma step_ok:
  assumes ok: "e820_prefix_ok (take (Suc n) e) c"
    and len: "length e = E820MAX"
    and n: "n < E820MAX"
    and le: "c \<le> unat (region_start r)"
    and sz: "region_size r \<noteq> 0"
  shows "(n + 2 < E820MAX \<longrightarrow> (\<exists>e' n'. e820_region_step (e, n) r = Inr (e', n'))) \<and>
         (\<forall>e' n'. e820_region_step (e, n) r = Inr (e', n') \<longrightarrow>
            length e' = E820MAX \<and> n' < E820MAX \<and> n' \<le> n + 2 \<and>
            e820_prefix_ok (take (Suc n') e') (unat (region_start r) + unat (region_size r)) \<and>
            ram_ranges (take (Suc n') e') = ram_ranges (take (Suc n) e) \<union> region_range r)"
proof (cases "c = unat (region_start r)")
  case True
  have nl: "n < length e" using n len by simp
  from step_contiguous_ok [OF ok nl True sz] obtain e1 where
    r1: "e820_region_step (e, n) r = Inr (e1, n)" and l1: "length e1 = length e" and
    o1: "e820_prefix_ok (take (Suc n) e1) (unat (region_start r) + unat (region_size r))" and
    m1: "ram_ranges (take (Suc n) e1) = ram_ranges (take (Suc n) e) \<union> region_range r"
    by blast
  show ?thesis
    unfolding r1 using l1 o1 m1 n len by simp
next
  case False
  with le have lt: "c < unat (region_start r)" by simp
  note g = step_gap_ok [OF ok len n lt sz]
  show ?thesis
  proof (cases "n + 2 < E820MAX")
    case True
    with g obtain e1 where
      r1: "e820_region_step (e, n) r = Inr (e1, n + 2)" and l1: "length e1 = length e" and
      o1: "e820_prefix_ok (take (Suc (n + 2)) e1) (unat (region_start r) + unat (region_size r))" and
      m1: "ram_ranges (take (Suc (n + 2)) e1) = ram_ranges (take (Suc n) e) \<union> region_range r"
      by auto
    show ?thesis
      unfolding r1 using l1 o1 m1 True len by simp
  next
    case False
    with g have "e820_region_step (e, n) r = Inl (AssertFailed ''entry < E820MAX'')" by simp
    with False show ?thesis by simp
  qed
qed

lemma loop_ok:
  assumes "e820_prefix_ok (take (Suc n) e) c"
    and "length e = E820MAX"
    and "n < E820MAX"
    and "regions_sorted rs"
    and "rs \<noteq> [] \<longrightarrow> c \<le> unat (region_start (hd rs))"
    and "\<forall>r\<in>set rs. region_size r \<noteq> 0"
  shows "(n + 2 * length rs < E820MAX \<longrightarrow> (\<exists>e' n'. e820_regions_loop (e, n) rs = Inr (e', n'))) \<and>
         (\<forall>e' n'. e820_regions_loop (e, n) rs = Inr (e', n') \<longrightarrow>
            length e' = E820MAX \<and> n' < E820MAX \<and> n' \<le> n + 2 * length rs \<and>
            e820_prefix_ok (take (Suc n') e')
              (if rs = [] then c else unat (region_start (last rs)) + unat (region_size (last rs))) \<and>
            ram_ranges (take (Suc n') e') = ram_ranges (take (Suc n) e) \<union> \<Union> (region_range ` set rs))"
  using assms
proof (induction rs arbitrary: e n c)
  case Nil
  then show ?case by simp
next
  case (Cons r rs)
  have le: "c \<le> unat (region_start r)" and sz: "region_size r \<noteq> 0"
    using Cons.prems(5,6) by simp_all
  note st = step_ok [OF Cons.prems(1,2,3) le sz]
  have sorted': "regions_sorted rs"
    using Cons.prems(4) by (cases rs) simp_all
  have first': "rs \<noteq> [] \<longrightarrow> unat (region_start r) + unat (region_size r) \<le> unat (region_start (hd rs))"
    using Cons.prems(4) by (cases rs) simp_all
  have sizes': "\<forall>r\<in>set rs. region_size r \<noteq> 0"
    using Cons.prems(6) by simp
  show ?case
  proof (intro conjI allI impI)
    assume cap: "n + 2 * length (r # rs) < E820MAX"
    then have "n + 2 < E820MAX" by simp
    with st obtain e1 n1 where s1: "e820_region_step (e, n) r = Inr (e1, n1)" by blast
    with st have f1: "length e1 = E820MAX" "n1 < E820MAX" "n1 \<le> n + 2"
      "e820_prefix_ok (take (Suc n1) e1) (unat (region_start r) + unat (region_size r))"
      by blast+
    from cap f1(3) have "n1 + 2 * length rs < E820MAX" by simp
    with Cons.IH [OF f1(4) f1(1) f1(2) sorted' first' sizes']
    obtain e' n' where "e820_regions_loop (e1, n1) rs = Inr (e', n')" by blast
    then show "\<exists>e' n'. e820_regions_loop (e, n) (r # rs) = Inr (e', n')"
      by (simp add: s1)
  next
    fix e' n'
    assume run: "e820_regions_loop (e, n) (r # rs) = Inr (e', n')"
    then obtain e1 n1 where s1: "e820_region_step (e, n) r = Inr (e1, n1)"
      and l1: "e820_regions_loop (e1, n1) rs = Inr (e', n')"
      by (cases "e820_region_step (e, n) r") auto
    with st have f1: "length e1 = E820MAX" "n1 < E820MAX" "n1 \<le> n + 2"
      "e820_prefix_ok (take (Suc n1) e1) (unat (region_start r) + unat (region_size r))"
      "ram_ranges (take (Suc n1) e1) = ram_ranges (take (Suc n) e) \<union> region_range r"
      by blast+
    from Cons.IH [OF f1(4) f1(1) f1(2) sorted' first' sizes'] l1
    have f2: "length e' = E820MAX" "n' < E820MAX" "n' \<le> n1 + 2 * length rs"
      "e820_prefix_ok (take (Suc n') e')
         (if rs = [] then unat (region_start r) + unat (region_size r)
          else unat (region_start (last rs)) + unat (region_size (last rs)))"
      "ram_ranges (take (Suc n') e') = ram_ranges (take (Suc n1) e1) \<union> \<Union> (region_range ` set rs)"
      by blast+
    show "length e' = E820MAX" by (rule f2(1))
    show "n' < E820MAX" by (rule f2(2))
    show "n' \<le> n + 2 * length (r # rs)" using f2(3) f1(3) by simp
    show "e820_prefix_ok (take (Suc n') e')
            (if r # rs = [] then c
             else unat (region_start (last (r # rs))) + unat (region_size (last (r # rs))))"
      using f2(4) by (cases "rs = []") simp_all
    show "ram_ranges (take (Suc n') e') = ram_ranges (take (Suc n) e) \<union> \<Union> (region_range ` set (r # rs))"
      using f2(5) f1(5) by auto
  qed
qed


lemma e820entry_override2:
  "x\<lparr>e820_addr := a\<rparr>\<lparr>e820_size := s\<rparr>\<lparr>e820_type := t\<rparr> = \<lparr>e820_addr = a, e820_size = s, e820_type = t\<rparr>"
  by (cases x) simp

lemma final_entry_ok:
  assumes ok: "e820_prefix_ok (take (Suc n1) e1) c"
    and len: "length e1 = E820MAX"
    and c33: "c < 2 ^ 33"
  shows "(Suc n1 < E820MAX \<and> c < 2 ^ 32 \<longrightarrow> (\<exists>n e'. e820_final_entry (e1, n1) = Inr (n, e'))) \<and>
         (\<forall>n e'. e820_final_entry (e1, n1) = Inr (n, e') \<longrightarrow>
            n = n1 + 2 \<and> n \<le> E820MAX \<and> length e' = E820MAX \<and> c < 2 ^ 32 \<and>
            (\<exists>fin. take n e' = take (Suc n1) e1 @ [fin] \<and> unat (e820_addr fin) = c \<and>
                   unat (e820_size fin) = 2 ^ 32 - c \<and> e820_type fin = E820_RESERVED))"
proof (cases "Suc n1 < E820MAX")
  case False
  then show ?thesis by (simp add: e820_final_entry_def Let_def)
next
  case True
  define x where "x = e1 ! n1"
  have P: "take (Suc n1) e1 = take n1 e1 @ [x]"
    using True len by (simp add: take_Suc_conv_app_nth x_def)
  have hi: "unat (e820_addr x) + unat (e820_size x) = c"
    and all: "list_all (\<lambda>y. e820_size y \<noteq> 0 \<and> unat (e820_addr y) + unat (e820_size y) \<le> c) (take (Suc n1) e1)"
    using ok unfolding e820_prefix_ok_def by (simp_all add: P)
  define A where "A = e820_addr x + e820_size x"
  have uA: "unat A = c"
    unfolding A_def using hi c33 by (subst u64_unat_add) simp_all
  define fin where "fin = \<lparr>e820_addr = A, e820_size = 0x100000000 - A, e820_type = E820_RESERVED\<rparr>"
  define e4 where "e4 = e1[Suc n1 := fin]"
  have P4: "take (Suc (Suc n1)) e4 = take (Suc n1) e1 @ [fin]"
    using True len by (simp add: e4_def take_Suc_conv_app_nth)
  have old: "list_all (\<lambda>x. e820_addr x < e820_addr x + e820_size x) (take (Suc n1) e1)"
    unfolding list_all_iff
  proof
    fix y assume "y \<in> set (take (Suc n1) e1)"
    with all have nz: "e820_size y \<noteq> 0" and b: "unat (e820_addr y) + unat (e820_size y) \<le> c"
      by (auto simp add: list_all_iff)
    from b c33 have "unat (e820_addr y + e820_size y) = unat (e820_addr y) + unat (e820_size y)"
      by (subst u64_unat_add) simp_all
    moreover have "0 < unat (e820_size y)" using nz by (simp add: unat_gt_0)
    ultimately show "e820_addr y < e820_addr y + e820_size y"
      by (simp add: word_less_nat_alt)
  qed
  have finlt: "e820_addr fin < e820_addr fin + e820_size fin \<longleftrightarrow> c < 2 ^ 32"
  proof -
    have "e820_addr fin + e820_size fin = 0x100000000" by (simp add: fin_def)
    then show ?thesis by (simp add: word_less_nat_alt fin_def uA)
  qed
  have run: "e820_final_entry (e1, n1) =
      (if c < 2 ^ 32 then Inr (n1 + 2, e4)
       else Inl (AssertFailed ''e820[i].addr < e820[i].addr + e820[i].size''))"
    using True len old finlt
    by (simp add: e820_final_entry_def Let_def e820entry_override2 x_def [symmetric] A_def [symmetric]
          fin_def [symmetric] e4_def [symmetric] P4)
  have szfin: "c < 2 ^ 32 \<Longrightarrow> unat (e820_size fin) = 2 ^ 32 - c"
    by (simp add: fin_def u64_unat_sub uA)
  show ?thesis
    using True run P4 uA szfin len
    by (auto simp add: e4_def fin_def split: if_splits)
qed


lemma ucast_u32_u64_eq_0 [simp]: "(ucast (x :: u32) :: u64) = 0 \<longleftrightarrow> x = 0"
  by (metis unat_eq_zero unat_ucast_u32_u64)

lemma step_pad_first:
  assumes "e820_addr (e ! n) + e820_size (e ! n) \<noteq> ucast (region_start r)"
    and "e820_size (e ! n) = 0"
    and "Suc n < E820MAX"
    and "length e = E820MAX"
  shows "e820_region_step (e, n) r =
           Inr (e[n := (e ! n)\<lparr>e820_size := ucast (region_start r) - e820_addr (e ! n)\<rparr>,
                  Suc n := \<lparr>e820_addr = ucast (region_start r), e820_size = ucast (region_size r),
                             e820_type = E820_RAM\<rparr>], Suc n)"
  using assms
  by (simp add: e820_region_step_def Let_def e820entry_override)

lemma first_step_ok:
  assumes len: "length e = E820MAX"
    and nz: "region_start r \<noteq> 0"
    and sz: "region_size r \<noteq> 0"
  shows "\<exists>e1. e820_region_step
                (e[0 := (e ! 0)\<lparr>e820_addr := 0, e820_size := 0, e820_type := E820_RESERVED\<rparr>], 0) r
              = Inr (e1, 1) \<and>
            length e1 = E820MAX \<and>
            e820_prefix_ok (take (Suc 1) e1) (unat (region_start r) + unat (region_size r)) \<and>
            ram_ranges (take (Suc 1) e1) = region_range r"
proof -
  define z where "z = \<lparr>e820_addr = 0, e820_size = 0, e820_type = E820_RESERVED\<rparr>"
  define e0 where "e0 = e[0 := z]"
  define pad where "pad = \<lparr>e820_addr = 0, e820_size = ucast (region_start r), e820_type = E820_RESERVED\<rparr>"
  define ram where "ram = \<lparr>e820_addr = ucast (region_start r), e820_size = ucast (region_size r),
                            e820_type = E820_RAM\<rparr>"
  define e1 where "e1 = e0[0 := pad, Suc 0 := ram]"
  have l: "0 < length e" "Suc 0 < length e" "Suc 0 < E820MAX"
    using len by (simp_all add: E820MAX_def)
  have z0: "e0 ! 0 = z" using l by (simp add: e0_def)
  have init: "e[0 := (e ! 0)\<lparr>e820_addr := 0, e820_size := 0, e820_type := E820_RESERVED\<rparr>] = e0"
  proof -
    have "(e ! 0)\<lparr>e820_addr := 0, e820_size := 0, e820_type := E820_RESERVED\<rparr> = z"
      unfolding z_def by (cases "e ! 0") simp
    then show ?thesis by (simp add: e0_def)
  qed
  have padz: "z\<lparr>e820_size := ucast (region_start r) - e820_addr z\<rparr> = pad"
    by (simp add: z_def pad_def)
  have "e820_region_step (e0, 0) r =
          Inr (e0[0 := (e0 ! 0)\<lparr>e820_size := ucast (region_start r) - e820_addr (e0 ! 0)\<rparr>,
                  Suc 0 := ram], Suc 0)"
    unfolding ram_def
  proof (rule step_pad_first)
    show "e820_addr (e0 ! 0) + e820_size (e0 ! 0) \<noteq> ucast (region_start r)"
      using nz by (simp add: z0 z_def)
    show "e820_size (e0 ! 0) = 0" by (simp add: z0 z_def)
    show "Suc 0 < E820MAX" by (rule l(3))
    show "length e0 = E820MAX" using len by (simp add: e0_def)
  qed
  then have run: "e820_region_step (e0, 0) r = Inr (e1, 1)"
    by (simp add: z0 padz e1_def)
  have P: "take (Suc 1) e1 = [pad, ram]"
  proof -
    have "take (Suc (Suc 0)) e1 = take (Suc 0) e1 @ [e1 ! Suc 0]"
      using l by (simp add: take_Suc_conv_app_nth e1_def e0_def)
    also have "take (Suc 0) e1 = take 0 e1 @ [e1 ! 0]"
      using l by (simp add: take_Suc_conv_app_nth e1_def e0_def)
    finally show ?thesis using l by (simp add: e1_def e0_def)
  qed
  have ok: "e820_prefix_ok [pad, ram] (unat (region_start r) + unat (region_size r))"
    using nz sz by (simp add: e820_prefix_ok_def pad_def ram_def)
  have "ram_ranges ([pad] @ [ram]) = entry_range ram"
    unfolding ram_ranges_append ram_ranges_single by (simp add: pad_def ram_def)
  then have rr: "ram_ranges [pad, ram] = region_range r"
    by (simp add: ram_def entry_range_def region_range_def)
  have len1: "length e1 = E820MAX" using len by (simp add: e1_def e0_def)
  show ?thesis
    unfolding init
  proof (intro exI conjI)
    show "e820_region_step (e0, 0) r = Inr (e1, 1)" by (rule run)
    show "length e1 = E820MAX" by (rule len1)
    show "e820_prefix_ok (take (Suc 1) e1) (unat (region_start r) + unat (region_size r))"
      unfolding P by (rule ok)
    show "ram_ranges (take (Suc 1) e1) = region_range r"
      unfolding P by (rule rr)
  qed
qed

section \<open>The e820 memory map: the map produced\<close>

text \<open>
  Claim C3, as amended. Let the table have \<open>E820MAX\<close> slots and let the RAM regions be a
  non-empty list, sorted and non-overlapping (each region ends at or before the start of
  the next), with every region non-empty and the first region starting above address 0.
  Then whenever \<^verbatim>\<open>make_guest_e820_map\<close> produces a map of \<open>n\<close> entries, the first entry
  starts at address 0, consecutive entries abut exactly, the last entry ends at \<open>2^32\<close>,
  and the addresses of the RAM-typed entries are exactly the addresses of the input
  regions. A map is produced whenever the list has fewer than \<open>E820MAX / 2\<close> regions and
  the last region ends below \<open>2^32\<close>.
\<close>

theorem make_guest_e820_map_partition:
  assumes len: "length e820 = E820MAX"
    and ne: "ram_regions guest_memory \<noteq> []"
    and sorted: "regions_sorted (ram_regions guest_memory)"
    and sizes: "\<forall>r\<in>set (ram_regions guest_memory). region_size r \<noteq> 0"
    and first: "region_start (hd (ram_regions guest_memory)) \<noteq> 0"
  shows "(2 * length (ram_regions guest_memory) < E820MAX \<and>
          unat (region_start (last (ram_regions guest_memory))) +
            unat (region_size (last (ram_regions guest_memory))) < 2 ^ 32 \<longrightarrow>
            (\<exists>n e'. make_guest_e820_map e820 guest_memory = Inr (n, e'))) \<and>
         (\<forall>n e'. make_guest_e820_map e820 guest_memory = Inr (n, e') \<longrightarrow>
            0 < n \<and> n \<le> E820MAX \<and> length e' = E820MAX \<and>
            e820_addr (e' ! 0) = 0 \<and>
            (\<forall>i. Suc i < n \<longrightarrow>
               unat (e820_addr (e' ! i)) + unat (e820_size (e' ! i)) = unat (e820_addr (e' ! Suc i))) \<and>
            unat (e820_addr (e' ! (n - 1))) + unat (e820_size (e' ! (n - 1))) = 2 ^ 32 \<and>
            ram_ranges (take n e') = \<Union> (region_range ` set (ram_regions guest_memory)))"
proof -
  obtain r rs where rs: "ram_regions guest_memory = r # rs"
    using ne by (cases "ram_regions guest_memory") auto
  define e0 where "e0 = e820[0 := (e820 ! 0)\<lparr>e820_addr := 0, e820_size := 0, e820_type := E820_RESERVED\<rparr>]"
  define c1 where "c1 = unat (region_start r) + unat (region_size r)"
  define c where "c = unat (region_start (last (r # rs))) + unat (region_size (last (r # rs)))"
  have r0: "region_start r \<noteq> 0" and rsz: "region_size r \<noteq> 0"
    using first sizes by (simp_all add: rs)
  from first_step_ok [OF len r0 rsz] obtain e1 where
    s1: "e820_region_step (e0, 0) r = Inr (e1, 1)" and
    len1: "length e1 = E820MAX" and
    ok1: "e820_prefix_ok (take (Suc 1) e1) c1" and
    ram1: "ram_ranges (take (Suc 1) e1) = region_range r"
    unfolding e0_def c1_def by blast
  have one: "(1::nat) < E820MAX" by (simp add: E820MAX_def)
  have sorted': "regions_sorted rs"
    using sorted by (cases rs) (simp_all add: rs)
  have first': "rs \<noteq> [] \<longrightarrow> c1 \<le> unat (region_start (hd rs))"
    using sorted by (cases rs) (simp_all add: rs c1_def)
  have sizes': "\<forall>r\<in>set rs. region_size r \<noteq> 0"
    using sizes by (simp add: rs)
  note lp = loop_ok [OF ok1 len1 one sorted' first' sizes']
  have cc: "(if rs = [] then c1 else unat (region_start (last rs)) + unat (region_size (last rs))) = c"
    by (simp add: c_def c1_def)
  have c33: "c < 2 ^ 33"
    using unat_u32_less [of "region_start (last (r # rs))"] unat_u32_less [of "region_size (last (r # rs))"]
    unfolding c_def by simp
  have unf: "make_guest_e820_map e820 guest_memory =
      bnd (e820_regions_loop (e1, 1) rs) e820_final_entry"
    by (simp add: make_guest_e820_map_def Let_def rs e0_def [symmetric] s1)
  show ?thesis
  proof (intro conjI allI impI)
    assume "2 * length (ram_regions guest_memory) < E820MAX \<and>
          unat (region_start (last (ram_regions guest_memory))) +
            unat (region_size (last (ram_regions guest_memory))) < 2 ^ 32"
    then have cap: "2 * length (r # rs) < E820MAX" and c32: "c < 2 ^ 32"
      by (simp_all add: rs c_def)
    from cap have "1 + 2 * length rs < E820MAX" by simp
    with lp obtain e2 n2 where l2: "e820_regions_loop (e1, 1) rs = Inr (e2, n2)" by blast
    with lp have f2: "length e2 = E820MAX" "n2 \<le> 1 + 2 * length rs"
      "e820_prefix_ok (take (Suc n2) e2) c"
      unfolding cc by blast+
    from cap f2(2) have "Suc n2 < E820MAX" by simp
    with final_entry_ok [OF f2(3) f2(1) c33] c32
    obtain n e' where "e820_final_entry (e2, n2) = Inr (n, e')" by blast
    with l2 show "\<exists>n e'. make_guest_e820_map e820 guest_memory = Inr (n, e')"
      by (simp add: unf)
  next
    fix n e'
    assume run: "make_guest_e820_map e820 guest_memory = Inr (n, e')"
    then obtain e2 n2 where l2: "e820_regions_loop (e1, 1) rs = Inr (e2, n2)"
      and fin: "e820_final_entry (e2, n2) = Inr (n, e')"
      unfolding unf by (cases "e820_regions_loop (e1, 1) rs") auto
    from lp l2 have f2: "length e2 = E820MAX" "n2 < E820MAX"
      "e820_prefix_ok (take (Suc n2) e2) c"
      "ram_ranges (take (Suc n2) e2) = ram_ranges (take (Suc 1) e1) \<union> \<Union> (region_range ` set rs)"
      unfolding cc by blast+
    from final_entry_ok [OF f2(3) f2(1) c33] fin obtain fin_entry where
      n: "n = n2 + 2" and nle: "n \<le> E820MAX" and len': "length e' = E820MAX" and c32: "c < 2 ^ 32" and
      tk: "take n e' = take (Suc n2) e2 @ [fin_entry]" and
      flo: "unat (e820_addr fin_entry) = c" and fsz: "unat (e820_size fin_entry) = 2 ^ 32 - c" and
      fty: "e820_type fin_entry = E820_RESERVED"
      by blast
    define P where "P = take (Suc n2) e2"
    have Plen: "length P = Suc n2" using f2(1,2) by (simp add: P_def)
    have okP: "P \<noteq> []" "e820_addr (hd P) = 0" "abutting P"
      "unat (e820_addr (last P)) + unat (e820_size (last P)) = c"
      using f2(3) unfolding e820_prefix_ok_def P_def by simp_all
    have nth: "e' ! i = (P @ [fin_entry]) ! i" if "i < n" for i
      using that tk by (metis nth_take P_def)
    show "0 < n" by (simp add: n)
    show "n \<le> E820MAX" by (rule nle)
    show "length e' = E820MAX" by (rule len')
    show "e820_addr (e' ! 0) = 0"
      using okP(1,2) nth [of 0] by (cases P) (simp_all add: n)
    have ab: "abutting (P @ [fin_entry])"
      using okP by (simp add: abutting_snoc flo)
    show "unat (e820_addr (e' ! i)) + unat (e820_size (e' ! i)) = unat (e820_addr (e' ! Suc i))"
      if "Suc i < n" for i
      using abutting_nth [OF ab, of i] that nth [of i] nth [of "Suc i"] by (simp add: n Plen)
    show "unat (e820_addr (e' ! (n - 1))) + unat (e820_size (e' ! (n - 1))) = 2 ^ 32"
      using nth [of "n - 1"] c32 by (simp add: n Plen nth_append flo fsz)
    show "ram_ranges (take n e') = \<Union> (region_range ` set (ram_regions guest_memory))"
      unfolding tk using f2(4) ram1
      by (simp add: ram_ranges_append ram_ranges_single fty rs P_def)
  qed
qed

lemma empty_e820_table_unfold:
  "empty_e820_table =
     \<lparr>e820_addr = 0, e820_size = 0, e820_type = 0\<rparr> #
     \<lparr>e820_addr = 0, e820_size = 0, e820_type = 0\<rparr> #
     \<lparr>e820_addr = 0, e820_size = 0, e820_type = 0\<rparr> #
     replicate 125 \<lparr>e820_addr = 0, e820_size = 0, e820_type = 0\<rparr>"
proof -
  have "E820MAX = Suc (Suc (Suc 125))" by (simp add: E820MAX_def)
  then have "empty_e820_table =
      replicate (Suc (Suc (Suc 125))) \<lparr>e820_addr = 0, e820_size = 0, e820_type = 0\<rparr>"
    by (simp only: empty_e820_table_def)
  then show ?thesis by (simp only: replicate_Suc)
qed

lemma spec_example_run:
  "make_guest_e820_map empty_e820_table spec_example_regions =
     Inr (3, \<lparr>e820_addr = 0, e820_size = 0x100000, e820_type = E820_RESERVED\<rparr> #
             \<lparr>e820_addr = 0x100000, e820_size = 0x100000, e820_type = E820_RAM\<rparr> #
             \<lparr>e820_addr = 0x200000, e820_size = 0xFFE00000, e820_type = E820_RESERVED\<rparr> #
             replicate 125 \<lparr>e820_addr = 0, e820_size = 0, e820_type = 0\<rparr>)"
  unfolding empty_e820_table_unfold
  by (simp add: make_guest_e820_map_def spec_example_regions_def E820MAX_def
      e820_region_step_def e820_final_entry_def Let_def E820_RAM_def E820_RESERVED_def)

lemma ram_at_zero_run:
  "make_guest_e820_map empty_e820_table ram_at_zero_regions =
     Inr (2, \<lparr>e820_addr = 0, e820_size = 0x1000, e820_type = E820_RESERVED\<rparr> #
             \<lparr>e820_addr = 0x1000, e820_size = 0xFFFFF000, e820_type = E820_RESERVED\<rparr> #
             \<lparr>e820_addr = 0, e820_size = 0, e820_type = 0\<rparr> #
             replicate 125 \<lparr>e820_addr = 0, e820_size = 0, e820_type = 0\<rparr>)"
  unfolding empty_e820_table_unfold
  by (simp add: make_guest_e820_map_def ram_at_zero_regions_def E820MAX_def
      e820_region_step_def e820_final_entry_def Let_def E820_RAM_def E820_RESERVED_def)

text \<open>
  The example of the specification, through the theorem: the single region
  \<open>[0x100000, 0x200000)\<close> yields exactly the three entries \<open>[0, 0x100000)\<close> RESERVED,
  \<open>[0x100000, 0x200000)\<close> RAM and \<open>[0x200000, 2^32)\<close> RESERVED.
\<close>

theorem make_guest_e820_map_spec_example:
  "length empty_e820_table = E820MAX
   \<and> regions_sorted (ram_regions spec_example_regions)
   \<and> region_range (hd (ram_regions spec_example_regions)) = {0x100000..<0x200000}
   \<and> (\<exists>n e'. make_guest_e820_map empty_e820_table spec_example_regions = Inr (n, e')
          \<and> take n e' =
                [\<lparr>e820_addr = 0, e820_size = 0x100000, e820_type = E820_RESERVED\<rparr>,
                 \<lparr>e820_addr = 0x100000, e820_size = 0x100000, e820_type = E820_RAM\<rparr>,
                 \<lparr>e820_addr = 0x200000, e820_size = 0xFFE00000, e820_type = E820_RESERVED\<rparr>]
          \<and> e820_addr (e' ! 0) = 0
          \<and> unat (e820_addr (e' ! (n - 1))) + unat (e820_size (e' ! (n - 1))) = 2 ^ 32
          \<and> ram_ranges (take n e') = {0x100000..<0x200000})"
proof -
  have len: "length empty_e820_table = E820MAX"
    by (simp add: empty_e820_table_def)
  have ne: "ram_regions spec_example_regions \<noteq> []"
    and sorted: "regions_sorted (ram_regions spec_example_regions)"
    and sizes: "\<forall>r\<in>set (ram_regions spec_example_regions). region_size r \<noteq> 0"
    and first: "region_start (hd (ram_regions spec_example_regions)) \<noteq> 0"
    and rr: "region_range (hd (ram_regions spec_example_regions)) = {0x100000..<0x200000}"
    and un: "\<Union> (region_range ` set (ram_regions spec_example_regions)) = {0x100000..<0x200000}"
    by (simp_all add: spec_example_regions_def region_range_def)
  note part = make_guest_e820_map_partition [OF len ne sorted sizes first]
  from part spec_example_run
  have "e820_addr (snd (projr (make_guest_e820_map empty_e820_table spec_example_regions)) ! 0) = 0"
    and "unat (e820_addr (snd (projr (make_guest_e820_map empty_e820_table spec_example_regions)) ! (3 - 1))) +
         unat (e820_size (snd (projr (make_guest_e820_map empty_e820_table spec_example_regions)) ! (3 - 1))) = 2 ^ 32"
    and "ram_ranges (take 3 (snd (projr (make_guest_e820_map empty_e820_table spec_example_regions)))) =
         {0x100000..<0x200000}"
    unfolding un by simp_all
  then show ?thesis
    using len sorted rr by (simp add: spec_example_run)
qed

lemma ram_to_top_run:
  "make_guest_e820_map empty_e820_table ram_to_top_regions =
     Inl (AssertFailed ''e820[i].addr < e820[i].addr + e820[i].size'')"
  unfolding empty_e820_table_unfold
  by (simp add: make_guest_e820_map_def ram_to_top_regions_def E820MAX_def
      e820_region_step_def e820_final_entry_def Let_def E820_RAM_def E820_RESERVED_def)

text \<open>
  Claim C3 as stated fails. For the region \<open>[0xFFFFF000, 2^32)\<close>, a non-empty, sorted,
  non-overlapping list, no map is produced: the closing entry would be empty and the
  final assertion stops the run. For a region that starts at address 0, the list holding
  only \<open>[0, 0x1000)\<close>, the map has no RAM-typed entry at all, so the RAM-typed entries
  do not cover the input region.
\<close>

theorem make_guest_e820_map_not_always_partition:
  "ram_regions ram_to_top_regions \<noteq> []
   \<and> regions_sorted (ram_regions ram_to_top_regions)
   \<and> make_guest_e820_map empty_e820_table ram_to_top_regions =
        Inl (AssertFailed ''e820[i].addr < e820[i].addr + e820[i].size'')
   \<and> ram_regions ram_at_zero_regions \<noteq> []
   \<and> regions_sorted (ram_regions ram_at_zero_regions)
   \<and> make_guest_e820_map empty_e820_table ram_at_zero_regions =
        Inr (2, \<lparr>e820_addr = 0, e820_size = 0x1000, e820_type = E820_RESERVED\<rparr> #
                \<lparr>e820_addr = 0x1000, e820_size = 0xFFFFF000, e820_type = E820_RESERVED\<rparr> #
                \<lparr>e820_addr = 0, e820_size = 0, e820_type = 0\<rparr> #
                replicate 125 \<lparr>e820_addr = 0, e820_size = 0, e820_type = 0\<rparr>)
   \<and> ram_ranges (take 2 (\<lparr>e820_addr = 0, e820_size = 0x1000, e820_type = E820_RESERVED\<rparr> #
                \<lparr>e820_addr = 0x1000, e820_size = 0xFFFFF000, e820_type = E820_RESERVED\<rparr> #
                \<lparr>e820_addr = 0, e820_size = 0, e820_type = 0\<rparr> #
                replicate 125 \<lparr>e820_addr = 0, e820_size = 0, e820_type = 0\<rparr>)) = {}
   \<and> \<Union> (region_range ` set (ram_regions ram_at_zero_regions)) = {0..<4096}
   \<and> \<Union> (region_range ` set (ram_regions ram_at_zero_regions)) \<noteq> {}"
  by (simp add: ram_at_zero_run ram_to_top_run)
     (auto simp add: ram_at_zero_regions_def ram_to_top_regions_def region_range_def ram_ranges_def)

section \<open>The e820 memory map: the first entry\<close>

lemma step_pad_char:
  assumes "e820_addr (e ! n) + e820_size (e ! n) \<noteq> ucast (region_start r)"
    and "e820_size (e ! n) = 0"
    and "length e = E820MAX"
  shows "e820_region_step (e, n) r =
           (if Suc n < E820MAX then
              Inr (e[n := (e ! n)\<lparr>e820_size := ucast (region_start r) - e820_addr (e ! n)\<rparr>,
                     Suc n := \<lparr>e820_addr = ucast (region_start r), e820_size = ucast (region_size r),
                                e820_type = E820_RAM\<rparr>], Suc n)
            else Inl (AssertFailed ''entry < E820MAX''))"
  using assms
  by (simp add: e820_region_step_def Let_def e820entry_override)

lemma step_keeps_first:
  assumes run: "e820_region_step (e, n) r = Inr (e', n')"
    and len: "length e = E820MAX"
    and n: "n < E820MAX"
    and a0: "e820_addr (e ! 0) = 0"
  shows "length e' = E820MAX \<and> n' < E820MAX \<and> e820_addr (e' ! 0) = 0 \<and>
         e820_type (e' ! 0) = e820_type (e ! 0) \<and>
         unat (e820_size (e ! 0)) \<le> unat (e820_size (e' ! 0))"
proof (cases "e820_addr (e ! n) + e820_size (e ! n) = ucast (region_start r)")
  case True
  from run have e': "e' = e[n := (e ! n)\<lparr>e820_size := ucast (region_start r) - e820_addr (e ! n) + ucast (region_size r)\<rparr>]"
    and n': "n' = n"
    unfolding step_contiguous [OF True] by auto
  show ?thesis
  proof (cases "n = 0")
    case False
    then show ?thesis using len n by (simp add: e' n' a0)
  next
    case n0: True
    have s0: "e820_size (e ! 0) = ucast (region_start r)"
      using True a0 by (simp add: n0)
    have "unat (ucast (region_start r) + ucast (region_size r) :: u64) =
          unat (region_start r) + unat (region_size r)"
      using unat_u32_less [of "region_start r"] unat_u32_less [of "region_size r"]
      by (subst u64_unat_add) simp_all
    then show ?thesis
      using len n by (simp add: e' n' n0 a0 s0)
  qed
next
  case False
  show ?thesis
  proof (cases "e820_size (e ! n) = 0")
    case nz: False
    from run have lt: "n + 2 < E820MAX"
      unfolding step_gap [OF False nz len] by (simp split: if_splits)
    with run have e': "e' = e[Suc n := \<lparr>e820_addr = e820_addr (e ! n) + e820_size (e ! n),
                               e820_size = ucast (region_start r) - (e820_addr (e ! n) + e820_size (e ! n)),
                               e820_type = E820_RESERVED\<rparr>,
                     Suc (Suc n) := \<lparr>e820_addr = ucast (region_start r),
                                     e820_size = ucast (region_size r),
                                     e820_type = E820_RAM\<rparr>]"
      and n': "n' = n + 2"
      unfolding step_gap [OF False nz len] by auto
    show ?thesis using len lt by (simp add: e' n' a0)
  next
    case z: True
    from run have lt: "Suc n < E820MAX"
      unfolding step_pad_char [OF False z len] by (simp split: if_splits)
    with run have e': "e' = e[n := (e ! n)\<lparr>e820_size := ucast (region_start r) - e820_addr (e ! n)\<rparr>,
                     Suc n := \<lparr>e820_addr = ucast (region_start r), e820_size = ucast (region_size r),
                                e820_type = E820_RAM\<rparr>]"
      and n': "n' = Suc n"
      unfolding step_pad_char [OF False z len] by auto
    show ?thesis
    proof (cases "n = 0")
      case False
      then show ?thesis using len lt by (simp add: e' n' a0)
    next
      case True
      then show ?thesis using len lt z by (simp add: e' n' a0)
    qed
  qed
qed

lemma loop_keeps_first:
  assumes "e820_regions_loop (e, n) rs = Inr (e', n')"
    and "length e = E820MAX"
    and "n < E820MAX"
    and "e820_addr (e ! 0) = 0"
  shows "length e' = E820MAX \<and> n' < E820MAX \<and> e820_addr (e' ! 0) = 0 \<and>
         e820_type (e' ! 0) = e820_type (e ! 0) \<and>
         unat (e820_size (e ! 0)) \<le> unat (e820_size (e' ! 0))"
  using assms
proof (induction rs arbitrary: e n)
  case Nil
  then show ?case by simp
next
  case (Cons r rs)
  from Cons.prems(1) obtain e1 n1 where s1: "e820_region_step (e, n) r = Inr (e1, n1)"
    and l1: "e820_regions_loop (e1, n1) rs = Inr (e', n')"
    by (cases "e820_region_step (e, n) r") auto
  note k1 = step_keeps_first [OF s1 Cons.prems(2,3,4)]
  from k1 have a: "length e1 = E820MAX" and b: "n1 < E820MAX" and c: "e820_addr (e1 ! 0) = 0"
    by simp_all
  note k2 = Cons.IH [OF l1 a b c]
  show ?case using k1 k2 by simp
qed

lemma final_entry_keeps_first:
  assumes "e820_final_entry (e1, n1) = Inr (n, e')"
  shows "n = n1 + 2 \<and> length e' = length e1 \<and> e' ! 0 = e1 ! 0"
  using assms
  by (auto simp add: e820_final_entry_def Let_def bnd_def assert_that_def split: if_splits)

text \<open>
  Claim C10. Whenever \<^verbatim>\<open>make_guest_e820_map\<close> produces a map (the region list is then
  non-empty), its first entry has address 0 and type RESERVED: the type given to
  \<open>e820[0]\<close> before the loop is changed by no later step. In particular, when the first
  RAM region starts at address 0, all of its addresses lie in that RESERVED first entry.
\<close>

theorem e820_first_entry_reserved:
  assumes run: "make_guest_e820_map e820 guest_memory = Inr (n, e')"
    and len: "length e820 = E820MAX"
  shows "ram_regions guest_memory \<noteq> [] \<and> 0 < n \<and>
         e820_addr (e' ! 0) = 0 \<and> e820_type (e' ! 0) = E820_RESERVED \<and>
         (region_start (hd (ram_regions guest_memory)) = 0 \<longrightarrow>
            region_range (hd (ram_regions guest_memory)) \<subseteq> entry_range (e' ! 0))"
proof -
  define e0 where "e0 = e820[0 := (e820 ! 0)\<lparr>e820_addr := 0, e820_size := 0, e820_type := E820_RESERVED\<rparr>]"
  have pos: "0 < length e820" using len by (simp add: E820MAX_def)
  have e00: "e820_addr (e0 ! 0) = 0" "e820_type (e0 ! 0) = E820_RESERVED" "e820_size (e0 ! 0) = 0"
    and len0: "length e0 = E820MAX" and zero: "(0::nat) < E820MAX"
    using pos len by (simp_all add: e0_def)
  have ne: "ram_regions guest_memory \<noteq> []"
    using run by (auto simp add: make_guest_e820_map_def Let_def)
  then obtain r rs where rs: "ram_regions guest_memory = r # rs"
    by (cases "ram_regions guest_memory") auto
  from run ne obtain e2 n2 where lp: "e820_regions_loop (e0, 0) (r # rs) = Inr (e2, n2)"
    and fin: "e820_final_entry (e2, n2) = Inr (n, e')"
    unfolding make_guest_e820_map_def Let_def e0_def [symmetric] rs
    by (cases "e820_regions_loop (e0, 0) (r # rs)") auto
  note k = loop_keeps_first [OF lp len0 zero e00(1)]
  note f = final_entry_keeps_first [OF fin]
  have first: "e' ! 0 = e2 ! 0" and npos: "0 < n" using f by simp_all
  have covered: "region_range r \<subseteq> entry_range (e' ! 0)" if r0: "region_start r = 0"
  proof -
    from lp obtain e1 n1 where s1: "e820_region_step (e0, 0) r = Inr (e1, n1)"
      and l1: "e820_regions_loop (e1, n1) rs = Inr (e2, n2)"
      by (cases "e820_region_step (e0, 0) r") auto
    have contiguous: "e820_addr (e0 ! 0) + e820_size (e0 ! 0) = ucast (region_start r)"
      by (simp add: e00 r0)
    from s1 have e1: "e1 = e0[0 := (e0 ! 0)\<lparr>e820_size := ucast (region_start r) - e820_addr (e0 ! 0) + ucast (region_size r)\<rparr>]"
      and n1: "n1 = 0"
      unfolding step_contiguous [OF contiguous] by auto
    have sz1: "e820_size (e1 ! 0) = ucast (region_size r)"
      and a1: "e820_addr (e1 ! 0) = 0" and len1: "length e1 = E820MAX"
      using len0 zero by (simp_all add: e1 e00 r0)
    from loop_keeps_first [OF l1 [unfolded n1] len1 zero a1]
    have "unat (e820_size (e1 ! 0)) \<le> unat (e820_size (e2 ! 0))" and "e820_addr (e2 ! 0) = 0"
      by simp_all
    then show ?thesis
      by (auto simp add: region_range_def entry_range_def first r0 sz1)
  qed
  show ?thesis
    using ne npos k covered by (simp add: first e00 rs)
qed

text \<open>The region \<open>[0, 0x1000)\<close>: the first entry of the map is \<open>[0, 0x1000)\<close> RESERVED.\<close>

theorem e820_first_entry_reserved_ram_at_zero:
  "length empty_e820_table = E820MAX
   \<and> region_start (hd (ram_regions ram_at_zero_regions)) = 0
   \<and> region_range (hd (ram_regions ram_at_zero_regions)) = {0..<4096}
   \<and> (\<exists>n e'. make_guest_e820_map empty_e820_table ram_at_zero_regions = Inr (n, e')
          \<and> e' ! 0 = \<lparr>e820_addr = 0, e820_size = 0x1000, e820_type = E820_RESERVED\<rparr>
          \<and> {0..<4096} \<subseteq> entry_range (e' ! 0))"
proof -
  have len: "length empty_e820_table = E820MAX"
    by (simp add: empty_e820_table_def)
  have r0: "region_start (hd (ram_regions ram_at_zero_regions)) = 0"
    and rr: "region_range (hd (ram_regions ram_at_zero_regions)) = {0..<4096}"
    by (simp_all add: ram_at_zero_regions_def region_range_def)
  show ?thesis
    using e820_first_entry_reserved [OF ram_at_zero_run len] ram_at_zero_run len r0 rr
    by simp
qed

section \<open>The boot-parameter block\<close>

lemma make_guest_boot_info_block_magic:
  assumes "make_guest_boot_info_block X v = Inr b"
  shows "header (hdr b) = 0x53726448 \<and> boot_flag (hdr b) = 0xAA55"
proof (cases "make_guest_e820_map (e820_map zero_boot_params) (mem v)")
  case (Inl a)
  with assms show ?thesis
    by (simp add: make_guest_boot_info_block_def Let_def)
next
  case (Inr p)
  obtain n e where p: "p = (n, e)" by (cases p)
  from assms show ?thesis
    unfolding make_guest_boot_info_block_def Let_def
    by (auto simp add: Inr p split: if_splits)
qed

text \<open>
  Claim C9. Whenever \<^verbatim>\<open>make_guest_boot_info\<close> returns after a successful allocation, it
  returns 0 and the block it has assembled carries \<open>hdr.header = 0x53726448\<close> and
  \<open>hdr.boot_flag = 0xAA55\<close>, whatever the VM holds; the bytes of that very block are
  what is written to guest memory at the recorded \<open>boot_info\<close> address. (The only other
  outcomes are the return of \<open>-1\<close> when the allocation fails and an assertion of the
  memory-map builder; neither assembles a block.)
\<close>

theorem make_guest_boot_info_magic:
  assumes run: "make_guest_boot_info X v = Inr (ret, v')"
    and alloc: "guest_ram_allocate X (ram_regions (mem v))
                  (of_nat (length (boot_params_bytes X zero_boot_params))) = (addr, regions)"
    and ok: "addr \<noteq> 0"
  shows "\<exists>b. make_guest_boot_info_block X
                (v\<lparr>guest_image := (guest_image v)\<lparr>boot_info := addr\<rparr>,
                   mem := (mem v)\<lparr>ram_regions := regions\<rparr>\<rparr>) = Inr b
             \<and> header (hdr b) = 0x53726448
             \<and> boot_flag (hdr b) = 0xAA55
             \<and> ret = 0
             \<and> boot_info (guest_image v') = addr
             \<and> vm_vspace (mem v') =
                 write_bytes (vm_vspace (mem v)) addr
                   (take (unat (of_nat (length (boot_params_bytes X b)) :: u32)) (boot_params_bytes X b))"
proof -
  define v1 where "v1 = v\<lparr>guest_image := (guest_image v)\<lparr>boot_info := addr\<rparr>,
                           mem := (mem v)\<lparr>ram_regions := regions\<rparr>\<rparr>"
  from run alloc ok have r1: "bnd (make_guest_boot_info_block X v1)
          (\<lambda>b. bnd (vmm_guest_vspace_touch guest_elf_write_address addr
                        (of_nat (length (boot_params_bytes X b)))
                        (vm_vspace (mem v1), boot_params_bytes X b))
                  (\<lambda>(r, (m', c)). Inr (r, v1\<lparr>mem := (mem v1)\<lparr>vm_vspace := m'\<rparr>\<rparr>))) = Inr (ret, v')"
    by (simp add: make_guest_boot_info_def Let_def v1_def)
  then obtain b where b: "make_guest_boot_info_block X v1 = Inr b"
    by (cases "make_guest_boot_info_block X v1") auto
  have fits: "unat (of_nat (length (boot_params_bytes X b)) :: u32) \<le> length (boot_params_bytes X b)"
    by (simp add: unat_of_nat)
  from r1 have "ret = 0" and "v' = v1\<lparr>mem := (mem v1)\<lparr>vm_vspace :=
       write_bytes (vm_vspace (mem v1)) addr
         (take (unat (of_nat (length (boot_params_bytes X b)) :: u32)) (boot_params_bytes X b))\<rparr>\<rparr>"
    by (simp_all add: b touch_write [OF fits])
  then show ?thesis
    using make_guest_boot_info_block_magic [OF b] b
    by (simp add: v1_def)
qed

text \<open>A run for the example VM, with a byte image that begins with \<open>hdr.header\<close>: the
  guest memory at the block's address then holds the magic number.\<close>

lemma example_vm_mem: "mem example_vm = spec_example_regions"
  by (simp add: example_vm_def spec_example_regions_def)

theorem make_guest_boot_info_magic_example:
  "\<exists>v'. make_guest_boot_info (example_ext []) example_vm = Inr (0, v')
        \<and> boot_info (guest_image v') = 0x300000
        \<and> u32_of_bytes (read_bytes (vm_vspace (mem v')) 0x300000 4) = 0x53726448"
proof -
  have blk: "\<exists>b. make_guest_boot_info_block (example_ext [])
                (example_vm\<lparr>guest_image := (guest_image example_vm)\<lparr>boot_info := 0x300000\<rparr>,
                   mem := (mem example_vm)\<lparr>ram_regions := ram_regions (mem example_vm)\<rparr>\<rparr>) = Inr b"
    using spec_example_run
    by (simp add: make_guest_boot_info_block_def Let_def zero_boot_params_def empty_e820_table_def [symmetric]
          example_vm_mem)
  have alloc: "guest_ram_allocate (example_ext []) (ram_regions (mem example_vm))
                  (of_nat (length (boot_params_bytes (example_ext []) zero_boot_params)))
               = (0x300000, ram_regions (mem example_vm))"
    by (simp add: example_ext_def)
  have ok: "(0x300000 :: u32) \<noteq> 0" by simp
  from blk obtain b where b: "make_guest_boot_info_block (example_ext [])
                (example_vm\<lparr>guest_image := (guest_image example_vm)\<lparr>boot_info := 0x300000\<rparr>,
                   mem := (mem example_vm)\<lparr>ram_regions := ram_regions (mem example_vm)\<rparr>\<rparr>) = Inr b"
    by blast
  have "\<exists>ret v'. make_guest_boot_info (example_ext []) example_vm = Inr (ret, v')"
    using b alloc
    by (simp add: make_guest_boot_info_def Let_def touch_write unat_of_nat example_ext_def length_bytes_of_u32)
  then obtain ret v' where run: "make_guest_boot_info (example_ext []) example_vm = Inr (ret, v')"
    by blast
  from make_guest_boot_info_magic [OF run alloc ok] obtain b' where
    m: "header (hdr b') = 0x53726448" "ret = 0" "boot_info (guest_image v') = 0x300000"
      "vm_vspace (mem v') = write_bytes (vm_vspace (mem example_vm)) 0x300000
         (take (unat (of_nat (length (boot_params_bytes (example_ext []) b')) :: u32))
               (boot_params_bytes (example_ext []) b'))"
    by blast
  have bytes: "boot_params_bytes (example_ext []) b' = bytes_of_u32 0x53726448"
    by (simp add: example_ext_def m(1))
  have "read_bytes (vm_vspace (mem v')) 0x300000 4 = bytes_of_u32 0x53726448"
    unfolding m(4) bytes
    using read_write_same [of "bytes_of_u32 0x53726448" "vm_vspace (mem example_vm)" "0x300000"]
    by (simp add: length_bytes_of_u32)
  then show ?thesis
    using run m(2,3) by (simp add: u32_of_bytes_of_u32)
qed

section \<open>The ELF loader: layout of the loaded image\<close>

lemma guest_kernel_addrs_Min:
  "guest_kernel_addrs hs (a, v) =
     (Min (insert a (p_paddr ` {h \<in> set hs. p_type h = PT_LOAD})),
      Min (insert v (p_vaddr ` {h \<in> set hs. p_type h = PT_LOAD})))"
proof (induction hs arbitrary: a v)
  case Nil
  then show ?case by simp
next
  case (Cons h hs)
  show ?case
  proof (cases "p_type h = PT_LOAD")
    case False
    then have "{x \<in> set (h # hs). p_type x = PT_LOAD} = {x \<in> set hs. p_type x = PT_LOAD}"
      by auto
    with False Cons.IH show ?thesis by simp
  next
    case True
    define S where "S = {x \<in> set hs. p_type x = PT_LOAD}"
    have fin: "finite S" by (simp add: S_def)
    have set: "{x \<in> set (h # hs). p_type x = PT_LOAD} = insert h S"
      using True by (auto simp add: S_def)
    have m: "Min (insert (if x < b then x else b) (f ` S)) = Min (insert b (insert x (f ` S)))"
      for x b :: u32 and f
    proof -
      have "Min (insert b (insert x (f ` S))) = min b (Min (insert x (f ` S)))"
        using fin by simp
      also have "\<dots> = Min (insert (min b x) (f ` S))"
        using fin by (cases "f ` S = {}") (simp_all add: min.assoc)
      finally show ?thesis by (simp add: min_def not_less) (metis order.strict_iff_not order_antisym_conv)
    qed
    have "guest_kernel_addrs (h # hs) (a, v) =
        guest_kernel_addrs hs (if p_paddr h < a then p_paddr h else a,
                               if p_vaddr h < v then p_vaddr h else v)"
      using True by simp
    also have "\<dots> = (Min (insert (if p_paddr h < a then p_paddr h else a) (p_paddr ` S)),
                       Min (insert (if p_vaddr h < v then p_vaddr h else v) (p_vaddr ` S)))"
      by (simp only: Cons.IH S_def)
    also have "\<dots> = (Min (insert a (insert (p_paddr h) (p_paddr ` S))),
                       Min (insert v (insert (p_vaddr h) (p_vaddr ` S))))"
      by (simp only: m)
    also have "\<dots> = (Min (insert a (p_paddr ` insert h S)), Min (insert v (p_vaddr ` insert h S)))"
      by simp
    finally show ?thesis unfolding set .
  qed
qed

lemma reloc_offset_word: "(word_of_int (uint a - uint b) :: u32) = a - b"
  by (simp add: wi_hom_sub [symmetric])

lemma reloc_offset_sint:
  assumes "- (2 ^ 31) \<le> uint a - uint b" and "uint a - uint b < 2 ^ 31"
  shows "sint (word_of_int (uint a - uint b) :: u32) = uint (a :: u32) - uint (b :: u32)"
proof -
  define k where "k = uint a - uint b"
  have "sint (word_of_int k :: u32) = signed_take_bit 31 k"
    by (simp only: sint_sbintrunc') simp
  also have "\<dots> = k"
    using assms by (intro signed_take_bit_int_eq_self) (simp_all add: k_def)
  finally show ?thesis by (simp only: k_def)
qed


lemma Min_insert_max_u32:
  assumes "finite S" and "S \<noteq> {}"
  shows "Min (insert (0xFFFFFFFF :: u32) S) = Min S"
proof -
  have "Min S \<le> (0xFFFFFFFF :: u32)"
    using word_le_nat_alt unat_u32_less [of "Min S"] by (simp add: word_le_nat_alt)
  moreover have "Min (insert (0xFFFFFFFF :: u32) S) = min 0xFFFFFFFF (Min S)"
    using assms by (rule Min_insert)
  ultimately show ?thesis by (simp only: min_absorb2)
qed

text \<open>
  Claim C5, as amended. After \<^verbatim>\<open>vmm_load_guest_elf\<close> has returned 0: \<open>link_paddr\<close> and
  \<open>link_vaddr\<close> are the least physical and virtual address over exactly the \<open>PT_LOAD\<close>
  program headers (both are \<open>0xFFFFFFFF\<close> when there is no such header); \<open>load_paddr\<close> is
  the start of the largest free region rounded up to the alignment; \<open>relocation_offset\<close>
  is \<open>load_paddr - link_paddr\<close> in 32-bit arithmetic, which is the exact signed
  difference whenever that difference lies in \<open>[-2^31, 2^31)\<close>; and the recorded entry
  point is the ELF entry point plus the relocation offset, in 32-bit arithmetic.
\<close>

theorem vmm_load_guest_elf_image:
  assumes run: "vmm_load_guest_elf X v elfname alignment = Inr (0, v')"
  shows "\<exists>file elf.
           fopen X elfname = Some file \<and> vmm_read_elf_headers X file = Some elf \<and>
           ({h \<in> set (e_phdrs elf). p_type h = PT_LOAD} \<noteq> {} \<longrightarrow>
              link_paddr (guest_image v') = Min (p_paddr ` {h \<in> set (e_phdrs elf). p_type h = PT_LOAD}) \<and>
              link_vaddr (guest_image v') = Min (p_vaddr ` {h \<in> set (e_phdrs elf). p_type h = PT_LOAD})) \<and>
           ({h \<in> set (e_phdrs elf). p_type h = PT_LOAD} = {} \<longrightarrow>
              link_paddr (guest_image v') = 0xFFFFFFFF \<and> link_vaddr (guest_image v') = 0xFFFFFFFF) \<and>
           load_paddr (guest_image v') =
             ROUND_UP (guest_ram_largest_free_region_start X (ram_regions (mem v))) alignment \<and>
           relocation_offset (guest_image v') = load_paddr (guest_image v') - link_paddr (guest_image v') \<and>
           (- (2 ^ 31) \<le> uint (load_paddr (guest_image v')) - uint (link_paddr (guest_image v')) \<and>
            uint (load_paddr (guest_image v')) - uint (link_paddr (guest_image v')) < 2 ^ 31 \<longrightarrow>
              sint (relocation_offset (guest_image v')) =
                uint (load_paddr (guest_image v')) - uint (link_paddr (guest_image v'))) \<and>
           image_entry (guest_image v') = e_entry elf + relocation_offset (guest_image v') \<and>
           image_alignment (guest_image v') = alignment"
proof -
  from run obtain fl where f: "fopen X elfname = Some fl"
    by (cases "fopen X elfname") (simp_all add: vmm_load_guest_elf_def)
  from run f obtain elf where e: "vmm_read_elf_headers X fl = Some elf"
    by (cases "vmm_read_elf_headers X fl") (simp_all add: vmm_load_guest_elf_def)
  define S where "S = {h \<in> set (e_phdrs elf). p_type h = PT_LOAD}"
  define load_addr where
    "load_addr = ROUND_UP (guest_ram_largest_free_region_start X (ram_regions (mem v))) alignment"
  define ka where "ka = Min (insert 0xFFFFFFFF (p_paddr ` S))"
  define kv where "kv = Min (insert 0xFFFFFFFF (p_vaddr ` S))"
  have off_int: "(word_of_int (uint load_addr - uint ka) :: u32) = load_addr - ka"
    by (simp only: reloc_offset_word)
  have addrs: "guest_kernel_addrs (e_phdrs elf) (0xFFFFFFFF, 0xFFFFFFFF) = (ka, kv)"
    by (simp only: guest_kernel_addrs_Min ka_def kv_def S_def)
  from run have r2: "bnd (load_segments X fl (load_addr - ka) (e_phdrs elf) (mem v))
       (\<lambda>(ret, gm).
          if ret \<noteq> 0 then Inr (ret, v\<lparr>mem := gm\<rparr>)
          else Inr (0, v\<lparr>mem := gm,
                         guest_image := (guest_image v)
                           \<lparr>image_entry := e_entry elf + (load_addr - ka),
                            load_paddr := load_addr,
                            link_paddr := ka,
                            link_vaddr := kv,
                            relocation_offset := load_addr - ka,
                            image_alignment := alignment\<rparr>\<rparr>)) = Inr (0, v')"
    by (simp add: vmm_load_guest_elf_def f e addrs Let_def load_addr_def [symmetric])
  then obtain ret gm where ls: "load_segments X fl (load_addr - ka) (e_phdrs elf) (mem v) = Inr (ret, gm)"
    by (cases "load_segments X fl (load_addr - ka) (e_phdrs elf) (mem v)") auto
  from r2 have img: "guest_image v' = (guest_image v)
                           \<lparr>image_entry := e_entry elf + (load_addr - ka),
                            load_paddr := load_addr,
                            link_paddr := ka,
                            link_vaddr := kv,
                            relocation_offset := load_addr - ka,
                            image_alignment := alignment\<rparr>"
    by (auto simp add: ls split: if_splits)
  have fin: "finite (p_paddr ` S)" "finite (p_vaddr ` S)" by (simp_all add: S_def)
  have ne: "S \<noteq> {} \<Longrightarrow> ka = Min (p_paddr ` S) \<and> kv = Min (p_vaddr ` S)"
    unfolding ka_def kv_def using fin by (simp only: Min_insert_max_u32 image_is_empty simp_thms)
  have emp: "S = {} \<Longrightarrow> ka = 0xFFFFFFFF \<and> kv = 0xFFFFFFFF"
    by (simp add: ka_def kv_def)
  have offs: "- (2 ^ 31) \<le> uint load_addr - uint ka \<and> uint load_addr - uint ka < 2 ^ 31 \<longrightarrow>
              sint (load_addr - ka) = uint load_addr - uint ka"
    unfolding off_int [symmetric] by (intro impI reloc_offset_sint) simp_all
  show ?thesis
  proof (intro exI conjI)
    show "fopen X elfname = Some fl" by (rule f)
    show "vmm_read_elf_headers X fl = Some elf" by (rule e)
  qed (use img ne emp offs in \<open>simp_all add: S_def [symmetric] load_addr_def [symmetric]\<close>)
qed

lemma example_segment_load:
  assumes "frame_cap gm dest" and "vspace_map_pages X dest" and "vka_cspace_alloc_path X = 0"
    and "page_size gm = 12" and "unat dest mod 4096 < 4092"
  shows "vmm_load_guest_segment X gm 0 dest 4 4 example_kernel_file =
           Inr (0, write_bytes (vm_vspace gm) dest [1, 2, 3, 4])"
proof -
  have rd: "fread_at example_kernel_file 0 4 = Some [1, 2, 3, 4]"
    by (simp add: fread_at_def example_kernel_file_def)
  have lt: "4 < 4096 - unat dest mod 4096"
    using assms(5) by arith
  have "load_segment_loop X gm example_kernel_file 4 0 dest 0 4 (vm_vspace gm) =
          load_segment_loop X gm example_kernel_file 4 (0 + of_nat 4) (dest + of_nat 4) (0 + 4) (4 - 4)
            (write_bytes (vm_vspace gm) dest [1, 2, 3, 4])"
    using assms lt by (subst load_segment_loop.simps) (simp add: Let_def rd)
  also have "\<dots> = Inr (0, write_bytes (vm_vspace gm) dest [1, 2, 3, 4])"
    by (subst load_segment_loop.simps) simp
  finally show ?thesis
    using assms(3) by (simp add: vmm_load_guest_segment_def)
qed

lemma low_load_run:
  "\<exists>v'. low_load_result = Inr (0, v')"
  unfolding low_load_result_def vmm_load_guest_elf_def
  by (simp add: loader_ext_def example_ext_def example_elf_def example_vm_def Let_def ROUND_UP_def
        reloc_offset_word example_segment_load)

lemma high_load_run:
  "\<exists>v'. high_load_result = Inr (0, v') \<and>
         guest_image v' = example_image\<lparr>image_entry := 0x80100000, load_paddr := 0x80100000,
                                          link_paddr := 0x100000, link_vaddr := 0xC0100000,
                                          relocation_offset := 0x80000000, image_alignment := 0x1000\<rparr>"
  unfolding high_load_result_def vmm_load_guest_elf_def
  by (simp add: loader_ext_def example_ext_def example_elf_def example_vm_def Let_def ROUND_UP_def
        reloc_offset_word example_segment_load)

text \<open>The example kernel, linked at \<open>0x100000\<close> and loaded at \<open>0x200000\<close>: the offset is
  \<open>0x100000\<close> and the entry point moves from \<open>0x100000\<close> to \<open>0x200000\<close>.\<close>

theorem vmm_load_guest_elf_image_low:
  "\<exists>v'. low_load_result = Inr (0, v')
        \<and> link_paddr (guest_image v') = 0x100000
        \<and> link_vaddr (guest_image v') = 0xC0100000
        \<and> load_paddr (guest_image v') = 0x200000
        \<and> relocation_offset (guest_image v') = 0x100000
        \<and> sint (relocation_offset (guest_image v')) = 0x100000
        \<and> image_entry (guest_image v') = 0x200000"
proof -
  from low_load_run obtain v' where run: "low_load_result = Inr (0, v')" by blast
  have set: "{h \<in> set (e_phdrs example_elf). p_type h = PT_LOAD} =
      {\<lparr>p_type = PT_LOAD, p_offset = 0, p_vaddr = 0xC0100000, p_paddr = 0x100000,
        p_filesz = 4, p_memsz = 4\<rparr>}"
    by (auto simp add: example_elf_def)
  from vmm_load_guest_elf_image [OF run [unfolded low_load_result_def]]
  have "link_paddr (guest_image v') = 0x100000
        \<and> link_vaddr (guest_image v') = 0xC0100000
        \<and> load_paddr (guest_image v') = 0x200000
        \<and> relocation_offset (guest_image v') = 0x100000
        \<and> sint (relocation_offset (guest_image v')) = 0x100000
        \<and> image_entry (guest_image v') = 0x200000"
    by (clarsimp simp add: loader_ext_def example_ext_def set ROUND_UP_def) (simp add: example_elf_def)
  with run show ?thesis by blast
qed

text \<open>
  Claim C5 as stated fails when the load address lies \<open>2^31\<close> or more above the link
  address. The example kernel loaded at \<open>0x80100000\<close>: the load succeeds, the difference
  \<open>load_paddr - link_paddr\<close> is \<open>2147483648\<close>, and the recorded \<^verbatim>\<open>int\<close> is \<open>-2147483648\<close>.
\<close>

theorem vmm_load_guest_elf_offset_wraps:
  "high_load_result = Inr (0, snd (projr high_load_result))
   \<and> load_paddr (guest_image (snd (projr high_load_result))) = 0x80100000
   \<and> link_paddr (guest_image (snd (projr high_load_result))) = 0x100000
   \<and> sint (relocation_offset (guest_image (snd (projr high_load_result)))) = - 2147483648
   \<and> uint (load_paddr (guest_image (snd (projr high_load_result))))
       - uint (link_paddr (guest_image (snd (projr high_load_result)))) = 2147483648"
proof -
  from high_load_run obtain v' where run: "high_load_result = Inr (0, v')"
    and img: "guest_image v' = example_image\<lparr>image_entry := 0x80100000, load_paddr := 0x80100000,
                                          link_paddr := 0x100000, link_vaddr := 0xC0100000,
                                          relocation_offset := 0x80000000, image_alignment := 0x1000\<rparr>"
    by blast
  show ?thesis
    by (simp add: run img)
qed

section \<open>The ELF loader: contents of the loaded segments\<close>

lemma zero_fill_segment_load:
  assumes "frame_cap gm dest" and "vspace_map_pages X dest" and "vka_cspace_alloc_path X = 0"
    and "page_size gm = 12" and "unat dest mod 4096 = 0"
  shows "vmm_load_guest_segment X gm src dest 0x10 0 fl =
           Inr (0, write_bytes (vm_vspace gm) dest (replicate 4096 0))"
proof -
  have "load_segment_loop X gm fl 16 src dest 0 0 (vm_vspace gm) =
          load_segment_loop X gm fl 16 src (dest + of_nat 4096) (0 + 4096) 0
            (write_bytes (vm_vspace gm) dest (replicate 4096 0))"
    using assms by (subst load_segment_loop.simps) (simp add: Let_def)
  also have "\<dots> = Inr (0, write_bytes (vm_vspace gm) dest (replicate 4096 0))"
    by (subst load_segment_loop.simps) simp
  finally show ?thesis
    using assms(3) by (simp add: vmm_load_guest_segment_def)
qed

lemma shared_page_run:
  "\<exists>v'. shared_page_result = Inr (0, v') \<and>
         relocation_offset (guest_image v') = 0x100000 \<and>
         vm_vspace (mem v') =
           write_bytes (write_bytes zero_memory 0x200800 [1, 2, 3, 4]) 0x200000 (replicate 4096 0)"
  unfolding shared_page_result_def vmm_load_guest_elf_def
  by (simp add: loader_ext_def example_ext_def shared_page_elf_def example_vm_def Let_def ROUND_UP_def
        reloc_offset_word example_segment_load zero_fill_segment_load)

text \<open>
  Claim C4 (the code at the failing input). The ELF has two \<open>PT_LOAD\<close> segments that do
  not overlap, each with \<open>file_size \<le> mem_size\<close> and a nonzero \<open>mem_size\<close>: four file
  bytes \<open>1, 2, 3, 4\<close> for \<open>[0x100800, 0x100804)\<close> and sixteen zero-initialised bytes for
  \<open>[0x100000, 0x100010)\<close>. The load succeeds with relocation offset \<open>0x100000\<close>. The
  zero fill of the second segment is not limited to the segment: \<^verbatim>\<open>memset\<close> clears from
  the destination to the end of the 4 KiB frame, so the first segment's destination
  \<open>0x200800\<close> holds zeros afterwards, not its file bytes.
\<close>

theorem shared_page_segment_zeroed:
  "shared_page_result = Inr (0, snd (projr shared_page_result))
   \<and> relocation_offset (guest_image (snd (projr shared_page_result))) = 0x100000
   \<and> fread_at example_kernel_file 0 4 = Some [1, 2, 3, 4]
   \<and> read_bytes (vm_vspace (mem (snd (projr shared_page_result)))) 0x200800 4 = [0, 0, 0, 0]"
proof -
  from shared_page_run obtain v' where run: "shared_page_result = Inr (0, v')"
    and off: "relocation_offset (guest_image v') = 0x100000"
    and m: "vm_vspace (mem v') =
           write_bytes (write_bytes zero_memory 0x200800 [1, 2, 3, 4]) 0x200000 (replicate 4096 0)"
    by blast
  have rd: "fread_at example_kernel_file 0 4 = Some [1, 2, 3, 4]"
    by (simp add: fread_at_def example_kernel_file_def)
  have z: "read_bytes (write_bytes m0 0x200000 (replicate 4096 0)) 0x200800 4 = [0, 0, 0, 0]" for m0
    by (simp add: read_bytes_4 write_bytes_apply)
  show ?thesis
    by (simp add: run off m rd z)
qed

end
